theory Spec2Isabelle
  imports Complex_Main "HOL-Library.Log_Nat"
begin

section \<open>JavaScript numbers\<close>

text \<open>
  A JavaScript number is an IEEE-754 double. A finite double is represented by the
  rational it denotes, and every arithmetic result is rounded to the nearest double,
  ties to even, by \<open>fl\<close> (53 significant bits). The exponent range is not bounded:
  overflow to Infinity, subnormal numbers and NaN produced by arithmetic are outside
  the model. Where the source can produce NaN from a string, the result is an option
  and \<open>None\<close> stands for NaN.
\<close>

type_synonym num = rat

definition pow2 :: "int \<Rightarrow> rat" where
  "pow2 k = (if 0 \<le> k then 2 ^ nat k else 1 / 2 ^ nat (- k))"

definition ilog2 :: "rat \<Rightarrow> int" where
  "ilog2 x = (let (p, q) = quotient_of \<bar>x\<bar>;
                  k = bitlen p - bitlen q
              in if pow2 k \<le> \<bar>x\<bar> then k else k - 1)"

definition round_half_even :: "rat \<Rightarrow> int" where
  "round_half_even q = (let f = \<lfloor>q\<rfloor>; d = q - of_int f
     in if d < 1 / 2 then f else if 1 / 2 < d then f + 1
        else if even f then f else f + 1)"

definition fl :: "rat \<Rightarrow> num" where
  "fl x = (if x = 0 then 0
           else let u = pow2 (ilog2 x - 52)
                in of_int (round_half_even (x / u)) * u)"

definition fadd :: "num \<Rightarrow> num \<Rightarrow> num" where
  "fadd a b = fl (a + b)"

definition fsub :: "num \<Rightarrow> num \<Rightarrow> num" where
  "fsub a b = fl (a - b)"

definition fmul :: "num \<Rightarrow> num \<Rightarrow> num" where
  "fmul a b = fl (a * b)"

section \<open>JavaScript strings\<close>

text \<open>
  Strings are lists of characters. \<open>toLowerCase\<close> and \<open>trim\<close> are modelled on ASCII:
  letters A to Z are folded, and space, tab, line feed, vertical tab, form feed and
  carriage return are white space.
\<close>

fun startsWith :: "string \<Rightarrow> string \<Rightarrow> bool" where
  "startsWith s [] = True"
| "startsWith [] (c # cs) = False"
| "startsWith (x # xs) (c # cs) = (x = c \<and> startsWith xs cs)"

fun includes_str :: "string \<Rightarrow> string \<Rightarrow> bool" where
  "includes_str [] sub = (sub = [])"
| "includes_str (x # xs) sub = (startsWith (x # xs) sub \<or> includes_str xs sub)"

fun split_str :: "char \<Rightarrow> string \<Rightarrow> string list" where
  "split_str sep [] = [[]]"
| "split_str sep (x # xs) =
     (let r = split_str sep xs
      in if x = sep then [] # r else (x # hd r) # tl r)"

definition is_space :: "char \<Rightarrow> bool" where
  "is_space c = (c \<in> set [CHR '' '', CHR 0x09, CHR 0x0A, CHR 0x0B, CHR 0x0C, CHR 0x0D])"

definition trim :: "string \<Rightarrow> string" where
  "trim s = rev (dropWhile is_space (rev (dropWhile is_space s)))"

definition lower_char :: "char \<Rightarrow> char" where
  "lower_char c =
     (let n = (of_char c :: nat)
      in if 65 \<le> n \<and> n \<le> 90 then char_of (n + 32) else c)"

definition toLowerCase :: "string \<Rightarrow> string" where
  "toLowerCase s = map lower_char s"

definition is_digit :: "char \<Rightarrow> bool" where
  "is_digit c = (let n = (of_char c :: nat) in 48 \<le> n \<and> n \<le> 57)"

definition digits_value :: "string \<Rightarrow> nat" where
  "digits_value ds = foldl (\<lambda>acc c. 10 * acc + (of_char c - 48)) 0 ds"

text \<open>
  \<open>parseFloat\<close>: leading white space, an optional sign, decimal digits with an optional
  fraction, and an optional exponent that is consumed only when it has a digit. The
  value is rounded to a double. \<open>None\<close> is NaN. The literal \<open>Infinity\<close> is not modelled.
\<close>

definition parse_exponent :: "string \<Rightarrow> int" where
  "parse_exponent r =
     (case r of
        [] \<Rightarrow> 0
      | e # r1 \<Rightarrow>
          if e = CHR ''e'' \<or> e = CHR ''E'' then
            (let (neg, r2) = (case r1 of
                                [] \<Rightarrow> (False, r1)
                              | c # r' \<Rightarrow> if c = CHR ''-'' then (True, r')
                                          else if c = CHR ''+'' then (False, r')
                                          else (False, r1));
                 ds = takeWhile is_digit r2
             in if ds = [] then 0
                else if neg then - int (digits_value ds) else int (digits_value ds))
          else 0)"

definition pow10 :: "int \<Rightarrow> rat" where
  "pow10 k = (if 0 \<le> k then 10 ^ nat k else 1 / 10 ^ nat (- k))"

definition parseFloat :: "string \<Rightarrow> num option" where
  "parseFloat s =
     (let s1 = dropWhile is_space s;
          (neg, s2) = (case s1 of
                         [] \<Rightarrow> (False, s1)
                       | c # r \<Rightarrow> if c = CHR ''-'' then (True, r)
                                  else if c = CHR ''+'' then (False, r)
                                  else (False, s1));
          ip = takeWhile is_digit s2;
          r3 = dropWhile is_digit s2;
          (fp, r4) = (case r3 of
                        [] \<Rightarrow> ([], r3)
                      | c # r \<Rightarrow> if c = CHR ''.''
                                  then (takeWhile is_digit r, dropWhile is_digit r)
                                  else ([], r3))
      in if ip = [] \<and> fp = [] then None
         else
           (let mant = of_nat (digits_value ip)
                       + of_nat (digits_value fp) / 10 ^ length fp;
                v = mant * pow10 (parse_exponent r4)
            in Some (fl (if neg then - v else v))))"

text \<open>An error is represented by its \<open>message\<close>, \<open>None\<close> when the thrown value has
  none.\<close>

type_synonym js_error = "string option"

section \<open>ActionExecutor: duration specs\<close>

text \<open>\<open>parseTimeValue\<close>: a value with \<open>ms\<close> is taken as it is, a value with \<open>s\<close> is
  multiplied by 1000, and a value with no unit is taken as milliseconds.\<close>

definition parseTimeValue :: "string \<Rightarrow> num option" where
  "parseTimeValue timeStr =
     (let v = parseFloat timeStr
      in if includes_str timeStr ''ms'' then v
         else if includes_str timeStr ''s'' then map_option (\<lambda>x. fmul x 1000) v
         else v)"

text \<open>\<open>parseDuration\<close>: the argument \<open>random\<close> is the value of \<open>Math.random()\<close>. A string
  with a dash is cut at the dashes and its first two parts are the bounds.\<close>

definition parseDuration :: "num \<Rightarrow> string \<Rightarrow> num option" where
  "parseDuration random durationStr =
     (if includes_str durationStr ''-'' then
        (let parts = split_str CHR ''-'' durationStr;
             minStr = parts ! 0;
             maxStr = parts ! 1
         in case (parseTimeValue minStr, parseTimeValue maxStr) of
              (Some mn, Some mx) \<Rightarrow> Some (fadd (fmul random (fsub mx mn)) mn)
            | _ \<Rightarrow> None)
      else parseTimeValue durationStr)"

section \<open>ConfigManager: defaults for actions\<close>

text \<open>
  The configuration document is JSON. A property that may be absent is an option, and
  \<open>None\<close> is the absent property. The object spread of \<open>processAction\<close> lets a present
  property replace the default. Properties that the functions only copy are left out
  of the records.
\<close>

datatype duration_spec = DurNum num | DurStr string

record conditions =
  minTimeOnPage :: "num option"
  maxTimeOnPage :: "num option"
  elementExists :: "string option"
  elementNotExists :: "string option"
  goalProgress :: "(string \<times> num) list option"

record micro_cfg =
  mc_type :: string
  mc_duration :: "duration_spec option"
  mc_speed :: "string option"
  mc_pattern :: "string option"

record action_cfg =
  ac_name :: "string option"
  ac_probability :: "num option"
  ac_impact :: "(string \<times> num) list option"
  ac_conditions :: "conditions option"
  ac_micro_sequence :: "micro_cfg list option"

record actions_cfg =
  non_navigation :: "action_cfg list option"
  navigation :: "action_cfg list option"

record stay_cfg =
  stay_min :: num
  stay_max :: num
  stay_unit :: string

record page_cfg =
  stay_duration :: "stay_cfg option"
  pc_actions :: "actions_cfg option"

record scenario_cfg =
  sc_id :: "string option"
  sc_pages :: "(string \<times> page_cfg) list option"

definition truthy_duration :: "duration_spec option \<Rightarrow> bool" where
  "truthy_duration d =
     (case d of None \<Rightarrow> False | Some (DurNum n) \<Rightarrow> n \<noteq> 0 | Some (DurStr s) \<Rightarrow> s \<noteq> [])"

definition truthy_string :: "string option \<Rightarrow> bool" where
  "truthy_string s = (case s of None \<Rightarrow> False | Some t \<Rightarrow> t \<noteq> [])"

definition processMicroAction :: "micro_cfg \<Rightarrow> micro_cfg" where
  "processMicroAction microAction =
     (let p1 = (if mc_type microAction = ''wait'' \<and> \<not> truthy_duration (mc_duration microAction)
                then microAction\<lparr>mc_duration := Some (DurStr ''1-2s'')\<rparr> else microAction);
          p2 = (if mc_type p1 \<in> set [''move'', ''scroll''] \<and> \<not> truthy_string (mc_speed p1)
                then p1\<lparr>mc_speed := Some ''normal''\<rparr> else p1)
      in if mc_type p2 = ''move'' \<and> \<not> truthy_string (mc_pattern p2)
         then p2\<lparr>mc_pattern := Some ''natural''\<rparr> else p2)"

definition empty_conditions :: conditions where
  "empty_conditions =
     \<lparr>minTimeOnPage = None, maxTimeOnPage = None, elementExists = None,
      elementNotExists = None, goalProgress = None\<rparr>"

definition processAction :: "action_cfg \<Rightarrow> action_cfg" where
  "processAction action =
     (let p = (case ac_probability action of None \<Rightarrow> 1 / 2 | Some q \<Rightarrow> q);
          probability = (if p < 0 \<or> 1 < p then max 0 (min 1 p) else p);
          impact = (case ac_impact action of None \<Rightarrow> [] | Some i \<Rightarrow> i);
          conds = (case ac_conditions action of None \<Rightarrow> empty_conditions | Some c \<Rightarrow> c);
          micro_sequence = (case ac_micro_sequence action of None \<Rightarrow> [] | Some ms \<Rightarrow> ms)
      in \<lparr>ac_name = ac_name action,
          ac_probability = Some probability,
          ac_impact = Some impact,
          ac_conditions = Some conds,
          ac_micro_sequence = Some (map processMicroAction micro_sequence)\<rparr>)"

definition processPageConfig :: "page_cfg \<Rightarrow> page_cfg" where
  "processPageConfig pageConfig =
     (let stay = (case stay_duration pageConfig of
                    None \<Rightarrow> \<lparr>stay_min = 2, stay_max = 5, stay_unit = ''seconds''\<rparr>
                  | Some d \<Rightarrow> d);
          acts = (case pc_actions pageConfig of
                    None \<Rightarrow> \<lparr>non_navigation = Some [], navigation = Some []\<rparr>
                  | Some a \<Rightarrow> a)
      in \<lparr>stay_duration = Some stay,
          pc_actions = Some
            \<lparr>non_navigation = map_option (map processAction) (non_navigation acts),
             navigation = map_option (map processAction) (navigation acts)\<rparr>\<rparr>)"

definition processScenario :: "scenario_cfg \<Rightarrow> string \<Rightarrow> scenario_cfg" where
  "processScenario scenario scenarioId =
     (let pages = (case sc_pages scenario of None \<Rightarrow> [] | Some ps \<Rightarrow> ps)
      in \<lparr>sc_id = (case sc_id scenario of None \<Rightarrow> Some scenarioId | Some i \<Rightarrow> Some i),
          sc_pages = Some (map (\<lambda>(pageName, pageConfig). (pageName, processPageConfig pageConfig))
                             pages)\<rparr>)"

definition processScenarios :: "(string \<times> scenario_cfg) list \<Rightarrow> (string \<times> scenario_cfg) list" where
  "processScenarios scenarios =
     map (\<lambda>(scenarioId, scenario). (scenarioId, processScenario scenario scenarioId)) scenarios"

text \<open>The actions of a page, non-navigation list first, and of a scenario.\<close>

definition page_actions :: "page_cfg \<Rightarrow> action_cfg list" where
  "page_actions pc =
     (case pc_actions pc of
        None \<Rightarrow> []
      | Some a \<Rightarrow> (case non_navigation a of None \<Rightarrow> [] | Some l \<Rightarrow> l)
                  @ (case navigation a of None \<Rightarrow> [] | Some l \<Rightarrow> l))"

definition scenario_actions :: "scenario_cfg \<Rightarrow> action_cfg list" where
  "scenario_actions sc =
     (case sc_pages sc of None \<Rightarrow> [] | Some ps \<Rightarrow> concat (map (\<lambda>(n, pc). page_actions pc) ps))"

definition probability_in_range :: "action_cfg \<Rightarrow> bool" where
  "probability_in_range a =
     (case ac_probability a of None \<Rightarrow> False | Some p \<Rightarrow> 0 \<le> p \<and> p \<le> 1)"

section \<open>Element finder\<close>

text \<open>
  The document, as far as the finder reads it. \<open>qsa\<close> is the selector engine of the
  host: the elements that match a selector in document order, or \<open>None\<close> when the
  selector is not valid and the query throws. The empty selector is never valid, and
  \<open>*\<close> matches every element. An element carries what the finder reads of it.
\<close>

record dom_element =
  el_id :: nat
  textContent :: "string option"
  el_attributes :: "(string \<times> string) list"
  rect_left :: num
  rect_top :: num
  rect_width :: num
  rect_height :: num
  style_display :: string
  style_visibility :: string
  style_opacity :: string
  offsetWidth :: num
  offsetHeight :: num

datatype element = Dom dom_element | BrowserBack

record document =
  all_elements :: "dom_element list"
  qsa :: "string \<Rightarrow> dom_element list option"
  attached :: "dom_element \<Rightarrow> bool"
  innerHeight :: num
  clientHeight :: num
  innerWidth :: num
  clientWidth :: num

record selector_set =
  global :: "(string \<times> string) list option"

record finder =
  selectorCache :: "(string \<times> element) list"
  lastFound :: "element option"

definition querySelectorAll :: "document \<Rightarrow> string \<Rightarrow> js_error + dom_element list" where
  "querySelectorAll doc sel =
     (if sel = [] then Inl (Some ''SyntaxError'')
      else if sel = ''*'' then Inr (all_elements doc)
      else (case qsa doc sel of None \<Rightarrow> Inl (Some ''SyntaxError'') | Some es \<Rightarrow> Inr es))"

definition querySelector :: "document \<Rightarrow> string \<Rightarrow> js_error + dom_element option" where
  "querySelector doc sel =
     (case querySelectorAll doc sel of
        Inl e \<Rightarrow> Inl e
      | Inr es \<Rightarrow> Inr (case es of [] \<Rightarrow> None | x # _ \<Rightarrow> Some x))"

definition processSelector :: "string \<Rightarrow> selector_set option \<Rightarrow> js_error + string" where
  "processSelector selector globalSelectors =
     (if startsWith selector ''@'' then
        (let selectorName = drop 1 selector
         in case globalSelectors of
              None \<Rightarrow> Inl (Some (''Global selector not found: '' @ selectorName))
            | Some gs \<Rightarrow>
                (case global gs of
                   None \<Rightarrow> Inl (Some (''Global selector not found: '' @ selectorName))
                 | Some tab \<Rightarrow>
                     (case map_of tab selectorName of
                        None \<Rightarrow> Inl (Some (''Global selector not found: '' @ selectorName))
                      | Some v \<Rightarrow> if v = []
                                  then Inl (Some (''Global selector not found: '' @ selectorName))
                                  else Inr v)))
      else Inr selector)"

definition isElementVisible :: "dom_element \<Rightarrow> bool" where
  "isElementVisible e =
     (style_display e \<noteq> ''none'' \<and> style_visibility e \<noteq> ''hidden'' \<and> style_opacity e \<noteq> ''0''
      \<and> 0 < offsetWidth e \<and> 0 < offsetHeight e)"

definition or_num :: "num \<Rightarrow> num \<Rightarrow> num" where
  "or_num a b = (if a = 0 then b else a)"

definition isElementInViewport :: "document \<Rightarrow> dom_element \<Rightarrow> bool" where
  "isElementInViewport doc e =
     (0 \<le> rect_top e \<and> 0 \<le> rect_left e
      \<and> fadd (rect_top e) (rect_height e) \<le> or_num (innerHeight doc) (clientHeight doc)
      \<and> fadd (rect_left e) (rect_width e) \<le> or_num (innerWidth doc) (clientWidth doc))"

text \<open>Reading an array at an index: \<open>None\<close> is \<open>undefined\<close>.\<close>

definition at_index :: "'a list \<Rightarrow> int \<Rightarrow> 'a option" where
  "at_index xs i = (if 0 \<le> i \<and> i < int (length xs) then Some (xs ! nat i) else None)"

definition selectRandom_el :: "num \<Rightarrow> dom_element list \<Rightarrow> dom_element option" where
  "selectRandom_el random elements =
     (if elements = [] then None
      else at_index elements \<lfloor>fmul random (of_nat (length elements))\<rfloor>)"

definition selectVisible :: "dom_element list \<Rightarrow> dom_element option" where
  "selectVisible elements = find isElementVisible elements"

definition selectInViewport :: "document \<Rightarrow> dom_element list \<Rightarrow> dom_element option" where
  "selectInViewport doc elements = find (isElementInViewport doc) elements"

definition selectNth :: "dom_element list \<Rightarrow> int \<Rightarrow> dom_element option" where
  "selectNth elements n = at_index elements (n - 1)"

definition selectFirst :: "dom_element list \<Rightarrow> dom_element option" where
  "selectFirst elements = at_index elements 0"

definition selectLast :: "dom_element list \<Rightarrow> dom_element option" where
  "selectLast elements = at_index elements (int (length elements) - 1)"

text \<open>
  A regular expression without anchors is tried at every position, leftmost first.
  Each pattern of the finder is greedy on a class of characters that excludes the
  character that must follow, so trying the longest run decides the match.
\<close>

fun find_match :: "(string \<Rightarrow> 'a option) \<Rightarrow> string \<Rightarrow> 'a option" where
  "find_match m [] = m []"
| "find_match m (x # xs) = (case m (x # xs) of Some r \<Rightarrow> Some r | None \<Rightarrow> find_match m xs)"

definition nth_at :: "string \<Rightarrow> string option" where
  "nth_at s =
     (if startsWith s ''nth('' then
        (let r = drop 4 s; ds = takeWhile is_digit r
         in if ds \<noteq> [] \<and> startsWith (dropWhile is_digit r) '')'' then Some ds else None)
      else None)"

definition text_at :: "string \<Rightarrow> string option" where
  "text_at s =
     (if startsWith s (''text:'' @ [CHR 0x22]) then
        (let r = drop 6 s; v = takeWhile (\<lambda>c. c \<noteq> CHR 0x22) r
         in if v \<noteq> [] \<and> startsWith (dropWhile (\<lambda>c. c \<noteq> CHR 0x22) r) [CHR 0x22]
            then Some v else None)
      else None)"

definition attr_at :: "string \<Rightarrow> (string \<times> string) option" where
  "attr_at s =
     (if startsWith s ''['' then
        (let r = drop 1 s;
             a = takeWhile (\<lambda>c. c \<noteq> CHR ''='') r;
             r1 = dropWhile (\<lambda>c. c \<noteq> CHR ''='') r
         in if a \<noteq> [] \<and> startsWith r1 (''='' @ [CHR 0x22]) then
              (let r2 = drop 2 r1; v = takeWhile (\<lambda>c. c \<noteq> CHR 0x22) r2
               in if v \<noteq> [] \<and> startsWith (dropWhile (\<lambda>c. c \<noteq> CHR 0x22) r2) (CHR 0x22 # '']'')
                  then Some (a, v) else None)
            else None)
      else None)"

definition position_at :: "string \<Rightarrow> (string \<times> string \<times> string option) option" where
  "position_at s =
     (if startsWith s ''position('' then
        (let r = drop 9 s;
             d1 = takeWhile is_digit r; r1 = dropWhile is_digit r
         in if d1 \<noteq> [] \<and> startsWith r1 '','' then
              (let r2 = drop 1 r1; d2 = takeWhile is_digit r2; r3 = dropWhile is_digit r2
               in if d2 = [] then None
                  else if startsWith r3 '','' \<and> takeWhile is_digit (drop 1 r3) \<noteq> []
                          \<and> startsWith (dropWhile is_digit (drop 1 r3)) '')''
                  then Some (d1, d2, Some (takeWhile is_digit (drop 1 r3)))
                  else if startsWith r3 '')'' then Some (d1, d2, None)
                  else None)
            else None)
      else None)"

definition parseInt_digits :: "string \<Rightarrow> num" where
  "parseInt_digits ds = fl (of_nat (digits_value ds))"

definition handleSpecialSelectors ::
  "document \<Rightarrow> num \<Rightarrow> string \<Rightarrow> js_error + dom_element option" where
  "handleSpecialSelectors doc random selector =
     (let parts = split_str CHR '':'' selector;
          baseSelector = parts ! 0;
          modifier = (if 1 < length parts then Some (parts ! 1) else None)
      in case querySelectorAll doc baseSelector of
           Inl e \<Rightarrow> Inl e
         | Inr elements \<Rightarrow>
             if elements = [] then Inr None
             else (case modifier of
                     None \<Rightarrow> Inl (Some ''TypeError'')
                   | Some m \<Rightarrow>
                       if m = ''random'' then Inr (selectRandom_el random elements)
                       else if m = ''visible'' then Inr (selectVisible elements)
                       else if m = ''inviewport'' then Inr (selectInViewport doc elements)
                       else if m = ''first'' then Inr (at_index elements 0)
                       else if m = ''last'' then Inr (at_index elements (int (length elements) - 1))
                       else if startsWith m ''nth('' then
                         (case find_match nth_at m of
                            Some ds \<Rightarrow> Inr (at_index elements (\<lfloor>parseInt_digits ds\<rfloor> - 1))
                          | None \<Rightarrow> Inr (at_index elements 0))
                       else Inr (at_index elements 0)))"

text \<open>
  \<open>findByDirectSelector\<close>. The table of aliases is looked up with the whole selector,
  and an alias is called without arguments, so each list-based alias works on the
  empty list. Only the own keys of the table are modelled.
\<close>

definition findByDirectSelector ::
  "finder \<Rightarrow> document \<Rightarrow> num \<Rightarrow> string \<Rightarrow> js_error + element option" where
  "findByDirectSelector fs doc random selector =
     (if selector = '':random'' then Inr (map_option Dom (selectRandom_el random []))
      else if selector = '':visible'' then Inr (map_option Dom (selectVisible []))
      else if selector = '':inviewport'' then Inr (map_option Dom (selectInViewport doc []))
      else if selector = '':nth'' then Inr (map_option Dom (selectNth [] 1))
      else if selector = '':first'' then Inr (map_option Dom (selectFirst []))
      else if selector = '':last'' then Inr (map_option Dom (selectLast []))
      else if selector = ''current'' then Inr (lastFound fs)
      else if selector = ''browser_back'' then Inr (Some BrowserBack)
      else if includes_str selector '':'' then
        (case handleSpecialSelectors doc random selector of
           Inl e \<Rightarrow> Inl e
         | Inr r \<Rightarrow> Inr (map_option Dom r))
      else (case querySelectorAll doc selector of
              Inl e \<Rightarrow> Inl e
            | Inr elements \<Rightarrow> Inr (map_option Dom (at_index elements 0))))"

fun try_selectors :: "document \<Rightarrow> string list \<Rightarrow> js_error + element option" where
  "try_selectors doc [] = Inr None"
| "try_selectors doc (fallbackSelector # rest) =
     (case querySelector doc fallbackSelector of
        Inl e \<Rightarrow> Inl e
      | Inr (Some el) \<Rightarrow> Inr (Some (Dom el))
      | Inr None \<Rightarrow> try_selectors doc rest)"

definition findByFallbackSelectors :: "document \<Rightarrow> string \<Rightarrow> js_error + element option" where
  "findByFallbackSelectors doc selector =
     (if includes_str selector '','' then try_selectors doc (map trim (split_str CHR '','' selector))
      else Inr None)"

definition text_includes :: "string \<Rightarrow> dom_element \<Rightarrow> bool" where
  "text_includes searchText e =
     (case textContent e of
        None \<Rightarrow> False
      | Some t \<Rightarrow> t \<noteq> [] \<and> includes_str (toLowerCase t) searchText)"

definition text_equals :: "string \<Rightarrow> dom_element \<Rightarrow> bool" where
  "text_equals searchText e =
     (case textContent e of
        None \<Rightarrow> False
      | Some t \<Rightarrow> t \<noteq> [] \<and> includes_str (toLowerCase t) searchText
                  \<and> trim (toLowerCase t) = searchText)"

definition findByTextContent :: "document \<Rightarrow> string \<Rightarrow> js_error + element option" where
  "findByTextContent doc selector =
     (case find_match text_at selector of
        None \<Rightarrow> Inr None
      | Some captured \<Rightarrow>
          (let searchText = toLowerCase captured
           in case find (text_equals searchText) (all_elements doc) of
                Some e \<Rightarrow> Inr (Some (Dom e))
              | None \<Rightarrow> Inr (map_option Dom (find (text_includes searchText) (all_elements doc)))))"

definition attr_matches :: "bool \<Rightarrow> string \<Rightarrow> string \<Rightarrow> dom_element \<Rightarrow> bool" where
  "attr_matches isPartialMatch attribute v e =
     (case map_of (el_attributes e) attribute of
        None \<Rightarrow> False
      | Some attrValue \<Rightarrow>
          attrValue \<noteq> []
          \<and> (if isPartialMatch then includes_str attrValue v else attrValue = v))"

definition findByAttributes :: "document \<Rightarrow> string \<Rightarrow> js_error + element option" where
  "findByAttributes doc selector =
     (case find_match attr_at selector of
        None \<Rightarrow> Inr None
      | Some (attribute, v) \<Rightarrow>
          Inr (map_option Dom
                 (find (attr_matches (includes_str selector ''*='') attribute v)
                    (all_elements doc))))"

definition near_position :: "num \<Rightarrow> num \<Rightarrow> num \<Rightarrow> dom_element \<Rightarrow> bool" where
  "near_position x y tolerance e =
     (let centerX = fadd (rect_left e) (fl (rect_width e / 2));
          centerY = fadd (rect_top e) (fl (rect_height e / 2))
      in \<bar>fsub centerX x\<bar> \<le> tolerance \<and> \<bar>fsub centerY y\<bar> \<le> tolerance)"

definition findByPosition :: "document \<Rightarrow> string \<Rightarrow> js_error + element option" where
  "findByPosition doc selector =
     (case find_match position_at selector of
        None \<Rightarrow> Inr None
      | Some (d1, d2, d3) \<Rightarrow>
          (let x = parseInt_digits d1;
               y = parseInt_digits d2;
               tolerance = (case d3 of None \<Rightarrow> 10 | Some ds \<Rightarrow> or_num (parseInt_digits ds) 10)
           in Inr (map_option Dom (find (near_position x y tolerance) (all_elements doc)))))"

text \<open>The loop over the strategies: a strategy that throws or returns \<open>null\<close> is passed
  over, and the first element found is returned.\<close>

fun first_found :: "(js_error + element option) list \<Rightarrow> element option" where
  "first_found [] = None"
| "first_found (Inl e # rest) = first_found rest"
| "first_found (Inr None # rest) = first_found rest"
| "first_found (Inr (Some el) # rest) = Some el"

definition findElementBySelector ::
  "finder \<Rightarrow> document \<Rightarrow> num \<Rightarrow> string \<Rightarrow> element option" where
  "findElementBySelector fs doc random selector =
     first_found
       [findByDirectSelector fs doc random selector,
        findByFallbackSelectors doc selector,
        findByTextContent doc selector,
        findByAttributes doc selector,
        findByPosition doc selector]"

text \<open>\<open>findElement\<close>, with the option \<open>useCache\<close>. A cached element that is still in the
  document is returned as it is; asking the document about the virtual back element
  throws.\<close>

definition resolve_fresh ::
  "document \<Rightarrow> num \<Rightarrow> bool \<Rightarrow> string \<Rightarrow> string \<Rightarrow> finder \<Rightarrow> (js_error + element) \<times> finder" where
  "resolve_fresh doc random useCache selector processedSelector fs =
     (case findElementBySelector fs doc random processedSelector of
        None \<Rightarrow> (Inl (Some (''Element not found: '' @ selector)), fs)
      | Some el \<Rightarrow>
          (Inr el,
           fs\<lparr>selectorCache :=
                 (if useCache
                  then (processedSelector, el)
                       # filter (\<lambda>(k, v). k \<noteq> processedSelector) (selectorCache fs)
                  else selectorCache fs),
               lastFound := Some el\<rparr>))"

definition findElement ::
  "document \<Rightarrow> num \<Rightarrow> bool \<Rightarrow> string \<Rightarrow> selector_set option \<Rightarrow> finder
     \<Rightarrow> (js_error + element) \<times> finder" where
  "findElement doc random useCache selector globalSelectors fs =
     (case processSelector selector globalSelectors of
        Inl e \<Rightarrow> (Inl e, fs)
      | Inr processedSelector \<Rightarrow>
          (case (if useCache then map_of (selectorCache fs) processedSelector else None) of
             None \<Rightarrow> resolve_fresh doc random useCache selector processedSelector fs
           | Some BrowserBack \<Rightarrow> (Inl (Some ''TypeError''), fs)
           | Some (Dom d) \<Rightarrow>
               if attached doc d then (Inr (Dom d), fs)
               else resolve_fresh doc random useCache selector processedSelector
                      (fs\<lparr>selectorCache :=
                            filter (\<lambda>(k, v). k \<noteq> processedSelector) (selectorCache fs)\<rparr>)))"

text \<open>A strategy yields nothing when it throws or returns \<open>null\<close>.\<close>

definition yields_nothing :: "js_error + element option \<Rightarrow> bool" where
  "yields_nothing r = (case r of Inl e \<Rightarrow> True | Inr None \<Rightarrow> True | Inr (Some el) \<Rightarrow> False)"

section \<open>Content script: conditions and selection\<close>

text \<open>
  The content script reads its scenario in camel case (\<open>microSequence\<close>, \<open>nonNavigation\<close>,
  \<open>stayDuration\<close>). A micro-action is handed to the action executor and the element
  finder; the content script itself reads only its \<open>type\<close>.
\<close>

record micro_action =
  ma_type :: string

record action =
  name :: string
  probability :: num
  conditions :: "conditions option"
  impact :: "(string \<times> num) list option"
  microSequence :: "micro_action list option"
  targetPage :: "string option"

record page_action_lists =
  nonNavigation :: "action list option"
  navigation_actions :: "action list option"

record stayDuration_cfg =
  sd_min :: "num option"
  sd_max :: "num option"

record pageConfig =
  stayDuration :: "stayDuration_cfg option"
  entryActions :: "micro_action list option"
  actions :: "page_action_lists option"

record scenario =
  pages :: "(string \<times> pageConfig) list"

text \<open>
  What \<open>checkActionConditions\<close> asks of its collaborators: \<open>timeOnPage\<close> is the value of
  \<open>progressTracker.getTimeOnCurrentPage()\<close>, \<open>found sel\<close> holds when
  \<open>this.findElement(sel)\<close> resolves and fails when it throws, and \<open>getMetric m\<close> is the
  value of \<open>progressTracker.getMetric(m)\<close>, \<open>None\<close> for \<open>undefined\<close>. The progress
  tracker module is not part of the sources, so its answers are inputs. Each call
  that the function makes is recorded, in order.
\<close>

record cond_env =
  timeOnPage :: num
  found :: "string \<Rightarrow> bool"
  getMetric :: "string \<Rightarrow> num option"

datatype call = GetTimeOnCurrentPage | FindElement string | GetMetric string

type_synonym check = "bool \<times> call list"

definition and_then :: "check \<Rightarrow> check \<Rightarrow> check" where
  "and_then a b = (if fst a then (fst b, snd a @ snd b) else (False, snd a))"

definition js_lt :: "num option \<Rightarrow> num \<Rightarrow> bool" where
  "js_lt v threshold = (case v of None \<Rightarrow> False | Some x \<Rightarrow> x < threshold)"

definition check_minTimeOnPage :: "cond_env \<Rightarrow> conditions \<Rightarrow> check" where
  "check_minTimeOnPage env c =
     (case minTimeOnPage c of
        None \<Rightarrow> (True, [])
      | Some m \<Rightarrow> if m = 0 then (True, [])
                  else (\<not> timeOnPage env < fmul m 1000, [GetTimeOnCurrentPage]))"

definition check_maxTimeOnPage :: "cond_env \<Rightarrow> conditions \<Rightarrow> check" where
  "check_maxTimeOnPage env c =
     (case maxTimeOnPage c of
        None \<Rightarrow> (True, [])
      | Some m \<Rightarrow> if m = 0 then (True, [])
                  else (\<not> fmul m 1000 < timeOnPage env, [GetTimeOnCurrentPage]))"

definition check_elementExists :: "cond_env \<Rightarrow> conditions \<Rightarrow> check" where
  "check_elementExists env c =
     (case elementExists c of
        None \<Rightarrow> (True, [])
      | Some sel \<Rightarrow> if sel = [] then (True, []) else (found env sel, [FindElement sel]))"

definition check_elementNotExists :: "cond_env \<Rightarrow> conditions \<Rightarrow> check" where
  "check_elementNotExists env c =
     (case elementNotExists c of
        None \<Rightarrow> (True, [])
      | Some sel \<Rightarrow> if sel = [] then (True, []) else (\<not> found env sel, [FindElement sel]))"

fun check_entries :: "cond_env \<Rightarrow> (string \<times> num) list \<Rightarrow> check" where
  "check_entries env [] = (True, [])"
| "check_entries env ((metric, threshold) # rest) =
     (if js_lt (getMetric env metric) threshold then (False, [GetMetric metric])
      else and_then (True, [GetMetric metric]) (check_entries env rest))"

definition check_goalProgress :: "cond_env \<Rightarrow> conditions \<Rightarrow> check" where
  "check_goalProgress env c =
     (case goalProgress c of None \<Rightarrow> (True, []) | Some entries \<Rightarrow> check_entries env entries)"

definition checkActionConditions :: "cond_env \<Rightarrow> conditions \<Rightarrow> check" where
  "checkActionConditions env c =
     and_then (check_minTimeOnPage env c)
       (and_then (check_maxTimeOnPage env c)
          (and_then (check_elementExists env c)
             (and_then (check_elementNotExists env c)
                (check_goalProgress env c))))"

definition getAvailableActions :: "pageConfig \<Rightarrow> action list" where
  "getAvailableActions pc =
     (case actions pc of
        None \<Rightarrow> []
      | Some acts \<Rightarrow>
          filter (\<lambda>a. 0 < probability a)
            ((case nonNavigation acts of None \<Rightarrow> [] | Some l \<Rightarrow> l)
             @ (case navigation_actions acts of None \<Rightarrow> [] | Some l \<Rightarrow> l)))"

text \<open>The weighted walk of \<open>selectAction\<close>: \<open>None\<close> when the loop ends without a return.\<close>

fun walk :: "num \<Rightarrow> action list \<Rightarrow> action option" where
  "walk r [] = None"
| "walk r (a # rest) =
     (let r' = fsub r (probability a)
      in if r' \<le> 0 then Some a else walk r' rest)"

definition conditions_hold :: "cond_env \<Rightarrow> action \<Rightarrow> bool" where
  "conditions_hold env a =
     (case conditions a of None \<Rightarrow> True | Some c \<Rightarrow> fst (checkActionConditions env c))"

definition totalWeight :: "action list \<Rightarrow> num" where
  "totalWeight validActions = foldl (\<lambda>sum a. fadd sum (probability a)) 0 validActions"

text \<open>\<open>selectAction\<close>: the argument \<open>random\<close> is the value of \<open>Math.random()\<close>, and the
  result \<open>None\<close> is \<open>null\<close>.\<close>

definition selectAction :: "cond_env \<Rightarrow> num \<Rightarrow> action list \<Rightarrow> action option" where
  "selectAction env random availableActions =
     (let validActions = filter (conditions_hold env) availableActions
      in if validActions = [] then None
         else (case walk (fmul random (totalWeight validActions)) validActions of
                 Some a \<Rightarrow> Some a
               | None \<Rightarrow> Some (validActions ! 0)))"

text \<open>
  The checks as the specification names them, each with the condition under which it
  fails, and the calls that a check makes when it is reached.
\<close>

definition min_time_fails :: "cond_env \<Rightarrow> conditions \<Rightarrow> bool" where
  "min_time_fails env c =
     (case minTimeOnPage c of None \<Rightarrow> False
      | Some m \<Rightarrow> m \<noteq> 0 \<and> timeOnPage env < fmul m 1000)"

definition max_time_fails :: "cond_env \<Rightarrow> conditions \<Rightarrow> bool" where
  "max_time_fails env c =
     (case maxTimeOnPage c of None \<Rightarrow> False
      | Some m \<Rightarrow> m \<noteq> 0 \<and> fmul m 1000 < timeOnPage env)"

definition element_exists_fails :: "cond_env \<Rightarrow> conditions \<Rightarrow> bool" where
  "element_exists_fails env c =
     (case elementExists c of None \<Rightarrow> False | Some sel \<Rightarrow> sel \<noteq> [] \<and> \<not> found env sel)"

definition element_absent_fails :: "cond_env \<Rightarrow> conditions \<Rightarrow> bool" where
  "element_absent_fails env c =
     (case elementNotExists c of None \<Rightarrow> False | Some sel \<Rightarrow> sel \<noteq> [] \<and> found env sel)"

definition below_threshold :: "cond_env \<Rightarrow> string \<times> num \<Rightarrow> bool" where
  "below_threshold env entry = js_lt (getMetric env (fst entry)) (snd entry)"

definition goal_progress_fails :: "cond_env \<Rightarrow> conditions \<Rightarrow> bool" where
  "goal_progress_fails env c =
     (case goalProgress c of None \<Rightarrow> False | Some entries \<Rightarrow> list_ex (below_threshold env) entries)"

definition min_time_calls :: "conditions \<Rightarrow> call list" where
  "min_time_calls c =
     (case minTimeOnPage c of None \<Rightarrow> []
      | Some m \<Rightarrow> if m = 0 then [] else [GetTimeOnCurrentPage])"

definition max_time_calls :: "conditions \<Rightarrow> call list" where
  "max_time_calls c =
     (case maxTimeOnPage c of None \<Rightarrow> []
      | Some m \<Rightarrow> if m = 0 then [] else [GetTimeOnCurrentPage])"

definition exists_calls :: "conditions \<Rightarrow> call list" where
  "exists_calls c =
     (case elementExists c of None \<Rightarrow> [] | Some sel \<Rightarrow> if sel = [] then [] else [FindElement sel])"

definition absent_calls :: "conditions \<Rightarrow> call list" where
  "absent_calls c =
     (case elementNotExists c of None \<Rightarrow> []
      | Some sel \<Rightarrow> if sel = [] then [] else [FindElement sel])"

definition metric_calls :: "(string \<times> num) list \<Rightarrow> call list" where
  "metric_calls entries = map (\<lambda>entry. GetMetric (fst entry)) entries"

definition goal_calls :: "conditions \<Rightarrow> call list" where
  "goal_calls c = (case goalProgress c of None \<Rightarrow> [] | Some entries \<Rightarrow> metric_calls entries)"

definition all_calls :: "conditions \<Rightarrow> call list" where
  "all_calls c =
     min_time_calls c @ max_time_calls c @ exists_calls c @ absent_calls c @ goal_calls c"

text \<open>The value of \<open>random\<close> in the walk after the weights of the first \<open>k\<close> actions have
  been subtracted from \<open>r\<close>.\<close>

definition residual :: "num \<Rightarrow> action list \<Rightarrow> nat \<Rightarrow> num" where
  "residual r acts k = foldl fsub r (map probability (take k acts))"

section \<open>Content script: session and run loop\<close>

text \<open>\<open>shouldAbortOnError\<close> looks for a fatal substring in the lower-cased message.\<close>

definition fatalErrors :: "string list" where
  "fatalErrors = [''network_error'', ''page_crash'', ''extension_error'']"

definition shouldAbortOnError :: "js_error \<Rightarrow> bool" where
  "shouldAbortOnError error =
     (case error of
        None \<Rightarrow> False
      | Some message \<Rightarrow> list_ex (\<lambda>fatalError. includes_str (toLowerCase message) fatalError)
                          fatalErrors)"

text \<open>
  The state of the content script, with what it shares with its host and its
  collaborators:
  \<^item> \<open>timers\<close> are the pending timeouts of the host, each with its delay; when one fires
    it calls \<open>executeScenario\<close>. Timer identifiers are positive, so a stored identifier is
    truthy.
  \<^item> \<open>tracker_metrics\<close> and \<open>tracker_page\<close> are the state of the progress tracker, and
    \<open>tracker_updates\<close> lists the arguments of the calls of \<open>updateMetrics\<close>, oldest first.
  \<^item> \<open>log\<close> lists the messages sent by \<open>logAction\<close> and \<open>logError\<close>.
  \<^item> \<open>microRuns\<close> is what the next executions of a micro-action will meet: the commands
    that arrive while the micro-action is awaiting, and whether it completes or throws.
    An exhausted list means a micro-action that completes undisturbed.
  \<^item> \<open>detections\<close> are the next answers of the page detector (the type of the page, or
    \<open>None\<close> for no page); an exhausted list answers \<open>None\<close>.
\<close>

datatype interrupt = PauseCmd | StopCmd

datatype outcome = Completes | Throws js_error

datatype log_entry = LogAction string | LogError string js_error

record session =
  isRunning :: bool
  isPaused :: bool
  currentSession :: "string option"
  currentScenario :: "scenario option"
  currentPage :: "string option"
  executionTimer :: "nat option"
  timers :: "(nat \<times> num) list"
  nextTimerId :: nat
  tracker_metrics :: "string \<Rightarrow> num option"
  tracker_page :: "string option"
  tracker_updates :: "(string \<times> num) list list"
  log :: "log_entry list"
  microRuns :: "(interrupt list \<times> outcome) list"
  detections :: "string option list"

text \<open>
  What one tick reads from outside: the answers of \<open>areGoalsMet\<close> and
  \<open>isSessionTimedOut\<close> at the start of the tick, \<open>window.history.length\<close>, the two values
  of \<open>Math.random()\<close> used for the selection and for the delay, and the answers of the
  progress tracker and of the element finder to the condition checks.
\<close>

record tick_env =
  goalsMet :: bool
  timedOut :: bool
  historyLength :: nat
  selectRandom :: num
  delayRandom :: num
  te_timeOnPage :: num
  te_found :: "string \<Rightarrow> bool"

text \<open>Modelled from the spec: \<open>getMetric\<close> of the progress tracker, whose module is not part
  of the sources, reads the accumulator of a metric ("a mapping from metric name to
  numeric accumulator"); a metric without accumulator reads as \<open>undefined\<close>.\<close>

definition cond_env_of :: "tick_env \<Rightarrow> session \<Rightarrow> cond_env" where
  "cond_env_of env s =
     \<lparr>timeOnPage = te_timeOnPage env, found = te_found env, getMetric = tracker_metrics s\<rparr>"

definition logAction :: "string \<Rightarrow> session \<Rightarrow> session" where
  "logAction actionType s = s\<lparr>log := log s @ [LogAction actionType]\<rparr>"

definition logError :: "string \<Rightarrow> js_error \<Rightarrow> session \<Rightarrow> session" where
  "logError errorType error s = s\<lparr>log := log s @ [LogError errorType error]\<rparr>"

definition clearExecutionTimer :: "session \<Rightarrow> session" where
  "clearExecutionTimer s =
     (case executionTimer s of
        None \<Rightarrow> s
      | Some t \<Rightarrow> s\<lparr>timers := filter (\<lambda>(i, d). i \<noteq> t) (timers s), executionTimer := None\<rparr>)"

definition stopAutomation :: "session \<Rightarrow> session" where
  "stopAutomation s =
     logAction ''session_ended''
       (clearExecutionTimer
          (s\<lparr>isRunning := False, isPaused := False,
             currentSession := None, currentScenario := None\<rparr>))"

definition pauseAutomation :: "session \<Rightarrow> session" where
  "pauseAutomation s =
     logAction ''session_paused'' (clearExecutionTimer (s\<lparr>isPaused := True\<rparr>))"

text \<open>
  Modelled from the spec: \<open>updateMetrics\<close> of the progress tracker, whose module is not
  part of the sources, "adds each delta to its accumulator (keys not preconfigured are
  created on first use)".
\<close>

definition updateMetrics :: "(string \<times> num) list \<Rightarrow> session \<Rightarrow> session" where
  "updateMetrics deltas s =
     s\<lparr>tracker_metrics :=
          foldl (\<lambda>m (k, d). m(k \<mapsto> fadd (case m k of None \<Rightarrow> 0 | Some v \<Rightarrow> v) d))
            (tracker_metrics s) deltas,
       tracker_updates := tracker_updates s @ [deltas]\<rparr>"

definition detectCurrentPage :: "session \<Rightarrow> session" where
  "detectCurrentPage s =
     (case detections s of
        [] \<Rightarrow> s\<lparr>currentPage := None\<rparr>
      | d # rest \<Rightarrow>
          (case d of
             None \<Rightarrow> s\<lparr>detections := rest, currentPage := None\<rparr>
           | Some t \<Rightarrow> s\<lparr>detections := rest, currentPage := Some t, tracker_page := Some t\<rparr>))"

definition getPageConfiguration :: "session \<Rightarrow> pageConfig option" where
  "getPageConfiguration s =
     (case (currentScenario s, currentPage s) of
        (Some sc, Some t) \<Rightarrow> map_of (pages sc) t
      | _ \<Rightarrow> None)"

definition known_micro_types :: "string list" where
  "known_micro_types =
     [''wait'', ''move'', ''hover'', ''click'', ''scroll'', ''type'', ''verify'',
      ''screenshot'', ''log'']"

definition handle_interrupt :: "session \<Rightarrow> interrupt \<Rightarrow> session" where
  "handle_interrupt s c = (case c of PauseCmd \<Rightarrow> pauseAutomation s | StopCmd \<Rightarrow> stopAutomation s)"

text \<open>\<open>executeMicroAction\<close>: a known type awaits its collaborator, an unknown type only
  prints a warning.\<close>

definition executeMicroAction :: "micro_action \<Rightarrow> session \<Rightarrow> outcome \<times> session" where
  "executeMicroAction microAction s =
     (if ma_type microAction \<in> set known_micro_types then
        (let s0 = (if ma_type microAction = ''log'' then logAction ''custom_log'' s else s)
         in case microRuns s0 of
              [] \<Rightarrow> (Completes, s0)
            | (cmds, out) # rest \<Rightarrow>
                (out, foldl handle_interrupt (s0\<lparr>microRuns := rest\<rparr>) cmds))
      else (Completes, s))"

fun executeActionSequence :: "micro_action list \<Rightarrow> session \<Rightarrow> outcome \<times> session" where
  "executeActionSequence [] s = (Completes, s)"
| "executeActionSequence (microAction # rest) s =
     (if \<not> isRunning s \<or> isPaused s then (Completes, s)
      else (case executeMicroAction microAction s of
              (Completes, s') \<Rightarrow> executeActionSequence rest s'
            | (Throws error, s') \<Rightarrow>
                if shouldAbortOnError error then (Throws error, s')
                else executeActionSequence rest (logError ''micro_action_failed'' error s')))"

text \<open>\<open>handlePageTransition\<close> polls the page detector every 500 ms for less than 10 s:
  at most 20 polls.\<close>

fun poll_page :: "nat \<Rightarrow> string \<Rightarrow> session \<Rightarrow> session" where
  "poll_page 0 targetPageType s = s"
| "poll_page (Suc n) targetPageType s =
     (let s' = detectCurrentPage s
      in if currentPage s' = Some targetPageType then s' else poll_page n targetPageType s')"

definition handlePageTransition :: "string \<Rightarrow> session \<Rightarrow> session" where
  "handlePageTransition targetPageType s = poll_page 20 targetPageType s"

definition executeSelectedAction :: "tick_env \<Rightarrow> action \<Rightarrow> session \<Rightarrow> outcome \<times> session" where
  "executeSelectedAction env a s =
     (let s1 = logAction ''action_started'' s
      in if \<not> conditions_hold (cond_env_of env s1) a then (Completes, s1)
         else
           (case (case microSequence a of
                    None \<Rightarrow> (Completes, s1)
                  | Some ms \<Rightarrow> if ms = [] then (Completes, s1) else executeActionSequence ms s1) of
              (Throws error, s2) \<Rightarrow> (Throws error, logError ''action_execution_failed'' error s2)
            | (Completes, s2) \<Rightarrow>
                (let s3 = (case impact a of None \<Rightarrow> s2 | Some deltas \<Rightarrow> updateMetrics deltas s2);
                     s4 = (case targetPage a of
                             None \<Rightarrow> s3
                           | Some t \<Rightarrow> if t \<noteq> [] \<and> Some t \<noteq> currentPage s3
                                       then handlePageTransition t s3 else s3)
                 in (Completes, logAction ''action_completed'' s4))))"

definition or_default :: "num option \<Rightarrow> num \<Rightarrow> num" where
  "or_default v d = (case v of None \<Rightarrow> d | Some x \<Rightarrow> if x = 0 then d else x)"

text \<open>\<open>scheduleNextExecution\<close>: with no page configuration the read of \<open>stayDuration\<close>
  throws and nothing is scheduled.\<close>

definition scheduleNextExecution :: "tick_env \<Rightarrow> pageConfig option \<Rightarrow> session \<Rightarrow> session" where
  "scheduleNextExecution env pc s =
     (if \<not> isRunning s \<or> isPaused s then s
      else (case pc of
              None \<Rightarrow> s
            | Some cfg \<Rightarrow>
                (let minDelay = or_default (case stayDuration cfg of None \<Rightarrow> None | Some d \<Rightarrow> sd_min d) 2;
                     maxDelay = or_default (case stayDuration cfg of None \<Rightarrow> None | Some d \<Rightarrow> sd_max d) 5;
                     delay = fmul (fadd (fmul (delayRandom env) (fsub maxDelay minDelay)) minDelay) 1000
                 in s\<lparr>executionTimer := Some (nextTimerId s),
                      timers := timers s @ [(nextTimerId s, delay)],
                      nextTimerId := Suc (nextTimerId s)\<rparr>)))"

definition completeSession :: "session \<Rightarrow> session" where
  "completeSession s = stopAutomation (logAction ''session_completed'' s)"

definition timeoutSession :: "session \<Rightarrow> session" where
  "timeoutSession s = stopAutomation (logAction ''session_timeout'' s)"

definition handleStuckScenario :: "tick_env \<Rightarrow> session \<Rightarrow> session" where
  "handleStuckScenario env s =
     (if 1 < historyLength env then detectCurrentPage s else completeSession s)"

definition handleNoActionsAvailable :: "tick_env \<Rightarrow> session \<Rightarrow> session" where
  "handleNoActionsAvailable env s = handleStuckScenario env (logAction ''no_actions_available'' s)"

definition handlePageConfigError :: "tick_env \<Rightarrow> session \<Rightarrow> session" where
  "handlePageConfigError env s =
     handleStuckScenario env
       (logError ''page_config_error'' (Some ''No page configuration found'') s)"

definition handleExecutionError :: "tick_env \<Rightarrow> js_error \<Rightarrow> session \<Rightarrow> session" where
  "handleExecutionError env error s =
     (let s1 = logError ''execution_error'' error s
      in if shouldAbortOnError error then stopAutomation s1
         else scheduleNextExecution env (getPageConfiguration s1) s1)"

definition executePageActions :: "tick_env \<Rightarrow> pageConfig \<Rightarrow> session \<Rightarrow> outcome \<times> session" where
  "executePageActions env pc s =
     (case (case entryActions pc of
              None \<Rightarrow> (Completes, s)
            | Some ea \<Rightarrow> executeActionSequence ea s) of
        (Throws error, s1) \<Rightarrow> (Throws error, s1)
      | (Completes, s1) \<Rightarrow>
          (let availableActions = getAvailableActions pc
           in if availableActions = [] then (Completes, handleNoActionsAvailable env s1)
              else (case selectAction (cond_env_of env s1) (selectRandom env) availableActions of
                      None \<Rightarrow> (Completes, scheduleNextExecution env (Some pc) s1)
                    | Some a \<Rightarrow>
                        (case executeSelectedAction env a s1 of
                           (Throws error, s2) \<Rightarrow> (Throws error, s2)
                         | (Completes, s2) \<Rightarrow>
                             (Completes, scheduleNextExecution env (Some pc) s2)))))"

definition executeScenario :: "tick_env \<Rightarrow> session \<Rightarrow> session" where
  "executeScenario env s =
     (if \<not> isRunning s \<or> isPaused s then s
      else if goalsMet env then completeSession s
      else if timedOut env then timeoutSession s
      else (case getPageConfiguration s of
              None \<Rightarrow> handlePageConfigError env s
            | Some pc \<Rightarrow>
                (case executePageActions env pc s of
                   (Completes, s') \<Rightarrow> s'
                 | (Throws error, s') \<Rightarrow> handleExecutionError env error s')))"



text \<open>
  The micro-sequence of an action, and what it means that the whole of a sequence
  completes successfully: every micro-action is reached with the session running and
  not paused, and completes.
\<close>

definition micro_steps :: "action \<Rightarrow> micro_action list" where
  "micro_steps a = (case microSequence a of None \<Rightarrow> [] | Some ms \<Rightarrow> ms)"

fun sequence_completes_successfully :: "micro_action list \<Rightarrow> session \<Rightarrow> bool" where
  "sequence_completes_successfully [] s = True"
| "sequence_completes_successfully (microAction # rest) s =
     (isRunning s \<and> \<not> isPaused s
      \<and> (case executeMicroAction microAction s of
            (Completes, s') \<Rightarrow> sequence_completes_successfully rest s'
          | (Throws error, s') \<Rightarrow> False))"

text \<open>A script in which no command arrives and no fatal error is thrown.\<close>

definition undisturbed :: "(interrupt list \<times> outcome) list \<Rightarrow> bool" where
  "undisturbed runs =
     list_all (\<lambda>(cmds, out). cmds = []
                \<and> (case out of Completes \<Rightarrow> True | Throws error \<Rightarrow> \<not> shouldAbortOnError error))
       runs"


text \<open>A session is halted when it is not running or paused. The second session has no
  pending timeout that the first has not, and when it is halted it remembers no
  scheduled tick.\<close>

definition halted :: "session \<Rightarrow> bool" where
  "halted s \<longleftrightarrow> \<not> isRunning s \<or> isPaused s"

definition settled :: "session \<Rightarrow> session \<Rightarrow> bool" where
  "settled s s' \<longleftrightarrow>
     set (timers s') \<subseteq> set (timers s) \<and> (halted s' \<longrightarrow> executionTimer s' = None)"

section \<open>Example inputs\<close>

definition cfg_action :: "num option \<Rightarrow> action_cfg" where
  "cfg_action p =
     \<lparr>ac_name = Some ''a'', ac_probability = p, ac_impact = None, ac_conditions = None,
      ac_micro_sequence = None\<rparr>"

definition example_scenario_cfg :: scenario_cfg where
  "example_scenario_cfg =
     \<lparr>sc_id = None,
      sc_pages = Some
        [(''home'',
          \<lparr>stay_duration = None,
           pc_actions = Some
             \<lparr>non_navigation = Some [cfg_action (Some (7 / 2)), cfg_action None],
              navigation = Some [cfg_action (Some (- 1)), cfg_action (Some (1 / 4))]\<rparr>\<rparr>)]\<rparr>"

definition weighted :: "string \<Rightarrow> num \<Rightarrow> action" where
  "weighted n p =
     \<lparr>name = n, probability = p, conditions = None, impact = None, microSequence = None,
      targetPage = None\<rparr>"

text \<open>Three actions with the weights 0.35, 0.2 and 0.9, written as the doubles that
  these literals denote, and the largest of the values \<open>k / 2^52\<close> below 1, which
  \<open>Math.random()\<close> can return.\<close>

definition three_actions :: "action list" where
  "three_actions =
     [weighted ''a'' (3152519739159347 / 9007199254740992),
      weighted ''b'' (3602879701896397 / 18014398509481984),
      weighted ''c'' (8106479329266893 / 9007199254740992)]"

definition largest_draw :: num where
  "largest_draw = 1 - 1 / 2 ^ 52"

definition quiet_env :: cond_env where
  "quiet_env = \<lparr>timeOnPage = 0, found = (\<lambda>sel. False), getMetric = (\<lambda>m. None)\<rparr>"

text \<open>A condition set with every kind of condition, on a page where nothing is found.\<close>

definition full_conditions :: conditions where
  "full_conditions =
     \<lparr>minTimeOnPage = Some 1, maxTimeOnPage = Some 60, elementExists = Some ''#buy'',
      elementNotExists = Some ''.modal'', goalProgress = Some [(''visits'', 1)]\<rparr>"

definition five_seconds_env :: cond_env where
  "five_seconds_env = \<lparr>timeOnPage = 5000, found = (\<lambda>sel. False), getMetric = (\<lambda>m. None)\<rparr>"

text \<open>A lower bound of 2 and an upper bound of 0, and a page visited for 1500 ms.\<close>

definition min_two :: conditions where
  "min_two = empty_conditions\<lparr>minTimeOnPage := Some 2\<rparr>"

definition max_zero :: conditions where
  "max_zero = empty_conditions\<lparr>maxTimeOnPage := Some 0\<rparr>"

definition env_1500 :: cond_env where
  "env_1500 = \<lparr>timeOnPage = 1500, found = (\<lambda>sel. False), getMetric = (\<lambda>m. None)\<rparr>"

text \<open>A running session on the page \<open>home\<close> of a scenario with one action that counts a
  visit; scripts for a pause that arrives during the first micro-action, for a failure
  that is not fatal and for a fatal one.\<close>

definition visit_action :: action where
  "visit_action =
     \<lparr>name = ''visit'', probability = 1, conditions = None,
      impact = Some [(''visits'', 1)],
      microSequence = Some [\<lparr>ma_type = ''click''\<rparr>, \<lparr>ma_type = ''screenshot''\<rparr>],
      targetPage = None\<rparr>"

definition home_page :: pageConfig where
  "home_page =
     \<lparr>stayDuration = None, entryActions = None,
      actions = Some \<lparr>nonNavigation = Some [visit_action], navigation_actions = None\<rparr>\<rparr>"

definition running_session :: session where
  "running_session =
     \<lparr>isRunning = True, isPaused = False, currentSession = Some ''s1'',
      currentScenario = Some \<lparr>pages = [(''home'', home_page)]\<rparr>,
      currentPage = Some ''home'', executionTimer = None, timers = [], nextTimerId = 1,
      tracker_metrics = (\<lambda>m. None), tracker_page = Some ''home'', tracker_updates = [],
      log = [], microRuns = [], detections = []\<rparr>"

definition paused_midway :: session where
  "paused_midway = running_session\<lparr>microRuns := [([PauseCmd], Completes), ([], Completes)]\<rparr>"

definition failing_step :: session where
  "failing_step =
     running_session\<lparr>microRuns := [([], Throws (Some ''Element not found: #buy''))]\<rparr>"


text \<open>Scripts for a fatal error in the second micro-action, and for an error whose
  message reads \<open>network error\<close> with a space.\<close>

definition fatal_second_step :: session where
  "fatal_second_step =
     running_session\<lparr>microRuns :=
       [([], Completes), ([], Throws (Some ''Extension_Error: context invalidated''))]\<rparr>"



definition calm_tick :: tick_env where
  "calm_tick =
     \<lparr>goalsMet = False, timedOut = False, historyLength = 1, selectRandom = 0,
      delayRandom = 0, te_timeOnPage = 0, te_found = (\<lambda>sel. True)\<rparr>"


text \<open>A document with an SVG \<open>text\<close> element and a button, and the selector
  \<open>text:"buy now"\<close>, which the direct strategy reads as the base selector \<open>text\<close> with the
  modifier \<open>"buy now"\<close>.\<close>

definition plain_element :: "nat \<Rightarrow> string \<Rightarrow> dom_element" where
  "plain_element i t =
     \<lparr>el_id = i, textContent = Some t, el_attributes = [], rect_left = 0, rect_top = 0,
      rect_width = 10, rect_height = 10, style_display = ''block'',
      style_visibility = ''visible'', style_opacity = ''1'', offsetWidth = 10,
      offsetHeight = 10\<rparr>"

definition svg_text :: dom_element where
  "svg_text = plain_element 1 ''Logo''"

definition buy_button :: dom_element where
  "buy_button = plain_element 2 ''Buy now''"

definition shop_document :: document where
  "shop_document =
     \<lparr>all_elements = [svg_text, buy_button],
      qsa = (\<lambda>sel. if sel = ''text'' then Some [svg_text]
                   else if sel = ''button'' then Some [buy_button]
                   else Some []),
      attached = (\<lambda>e. True),
      innerHeight = 600, clientHeight = 600, innerWidth = 800, clientWidth = 800\<rparr>"

definition buy_now_selector :: string where
  "buy_now_selector = ''text:'' @ [CHR 0x22] @ ''buy now'' @ [CHR 0x22]"

definition fresh_finder :: finder where
  "fresh_finder = \<lparr>selectorCache = [], lastFound = None\<rparr>"

section \<open>Properties\<close>

subsection \<open>ConfigManager\<close>

lemma processAction_probability:
  "probability_in_range (processAction a)"
  by (simp add: processAction_def probability_in_range_def Let_def split: option.splits)

lemma processPageConfig_actions:
  "a \<in> set (page_actions (processPageConfig pc)) \<Longrightarrow> \<exists>b. a = processAction b"
  by (auto simp: page_actions_def processPageConfig_def Let_def split: option.splits)

lemma processScenario_actions:
  "a \<in> set (scenario_actions (processScenario sc i)) \<Longrightarrow> \<exists>b. a = processAction b"
  by (auto simp: scenario_actions_def processScenario_def Let_def
           dest: processPageConfig_actions split: option.splits)

text \<open>
  C10. After configuration processing every action of every page, in the navigation
  and in the non-navigation list, has a probability between 0 and 1: \<open>processAction\<close>
  gives a missing probability the value 0.5 and moves a probability outside the range
  to the nearest bound.
\<close>

theorem processed_probability_in_unit_interval:
  "(\<forall>a \<in> set (scenario_actions (processScenario sc i)).
      \<exists>p. ac_probability a = Some p \<and> 0 \<le> p \<and> p \<le> 1)
   \<and> ac_probability (processAction b)
       = Some (case ac_probability b of None \<Rightarrow> 1 / 2 | Some q \<Rightarrow> max 0 (min 1 q))"
proof
  show "\<forall>a \<in> set (scenario_actions (processScenario sc i)).
          \<exists>p. ac_probability a = Some p \<and> 0 \<le> p \<and> p \<le> 1"
  proof
    fix a assume "a \<in> set (scenario_actions (processScenario sc i))"
    then obtain c where "a = processAction c"
      using processScenario_actions by blast
    with processAction_probability [of c] show "\<exists>p. ac_probability a = Some p \<and> 0 \<le> p \<and> p \<le> 1"
      by (auto simp: probability_in_range_def split: option.splits)
  qed
next
  show "ac_probability (processAction b)
          = Some (case ac_probability b of None \<Rightarrow> 1 / 2 | Some q \<Rightarrow> max 0 (min 1 q))"
    by (simp add: processAction_def Let_def split: option.splits)
qed

theorem processed_probability_in_unit_interval_witness:
  "map ac_probability (scenario_actions (processScenario example_scenario_cfg ''s1''))
     = [Some 1, Some (1 / 2), Some 0, Some (1 / 4)]
   \<and> list_all probability_in_range
       (scenario_actions (processScenario example_scenario_cfg ''s1''))"
proof
  show "map ac_probability (scenario_actions (processScenario example_scenario_cfg ''s1''))
          = [Some 1, Some (1 / 2), Some 0, Some (1 / 4)]"
    by (simp add: example_scenario_cfg_def cfg_action_def scenario_actions_def
        processScenario_def processPageConfig_def page_actions_def processAction_def Let_def)
next
  have "\<forall>a \<in> set (scenario_actions (processScenario example_scenario_cfg ''s1'')).
          \<exists>p. ac_probability a = Some p \<and> 0 \<le> p \<and> p \<le> 1"
    using processed_probability_in_unit_interval [of example_scenario_cfg "''s1''"] by blast
  then show "list_all probability_in_range
               (scenario_actions (processScenario example_scenario_cfg ''s1''))"
    by (auto simp: list_all_iff probability_in_range_def)
qed

subsection \<open>Content script: selection\<close>

lemma residual_Cons: "residual r (a # rest) (Suc k) = residual (fsub r (probability a)) rest k"
  by (simp add: residual_def)

lemma walk_returns_first:
  "k < length acts \<Longrightarrow> residual r acts (Suc k) \<le> 0
   \<Longrightarrow> (\<forall>j<k. 0 < residual r acts (Suc j)) \<Longrightarrow> walk r acts = Some (acts ! k)"
proof (induction acts arbitrary: r k)
  case Nil
  then show ?case by simp
next
  case (Cons a rest)
  show ?case
  proof (cases k)
    case 0
    with Cons.prems show ?thesis by (simp add: residual_def Let_def)
  next
    case (Suc k')
    from Cons.prems(3) Suc have pos: "0 < fsub r (probability a)"
      by (auto simp: residual_def dest: spec [of _ 0])
    have later: "\<forall>j<k'. 0 < residual (fsub r (probability a)) rest (Suc j)"
    proof (intro allI impI)
      fix j assume "j < k'"
      then have "Suc j < k" using Suc by simp
      with Cons.prems(3) have "0 < residual r (a # rest) (Suc (Suc j))" by blast
      then show "0 < residual (fsub r (probability a)) rest (Suc j)"
        by (simp add: residual_Cons)
    qed
    from Cons.prems(1) Suc have "k' < length rest" by simp
    moreover from Cons.prems(2) Suc have "residual (fsub r (probability a)) rest (Suc k') \<le> 0"
      by (simp add: residual_Cons)
    ultimately have "walk (fsub r (probability a)) rest = Some (rest ! k')"
      using later by (rule Cons.IH)
    with pos Suc show ?thesis by (simp add: Let_def)
  qed
qed

lemma walk_none:
  "(\<forall>k<length acts. 0 < residual r acts (Suc k)) \<Longrightarrow> walk r acts = None"
proof (induction acts arbitrary: r)
  case Nil
  then show ?case by simp
next
  case (Cons a rest)
  from Cons.prems have pos: "0 < fsub r (probability a)"
    by (auto simp: residual_def dest: spec [of _ 0])
  have "\<forall>k<length rest. 0 < residual (fsub r (probability a)) rest (Suc k)"
  proof (intro allI impI)
    fix k assume "k < length rest"
    then have "Suc k < length (a # rest)" by simp
    with Cons.prems have "0 < residual r (a # rest) (Suc (Suc k))" by blast
    then show "0 < residual (fsub r (probability a)) rest (Suc k)" by (simp add: residual_Cons)
  qed
  then have "walk (fsub r (probability a)) rest = None" by (rule Cons.IH)
  with pos show ?case by (simp add: Let_def)
qed

lemma filter_all_valid:
  "\<forall>a\<in>set acts. conditions_hold env a \<Longrightarrow> filter (conditions_hold env) acts = acts"
  by (induction acts) auto

text \<open>
  C2 (as amended). For a non-empty list of eligible actions and every random draw,
  the weighted selection starts from \<open>r = draw * sumOfWeights\<close>, subtracts each weight in
  turn and returns the first action at which \<open>r\<close> is at most 0. When the walk ends
  without that, it returns the first element of the list. It never returns null.
\<close>

theorem selectAction_weighted_walk:
  assumes "acts \<noteq> []" and "\<forall>a\<in>set acts. conditions_hold env a"
  shows "(\<forall>k<length acts.
            residual (fmul d (totalWeight acts)) acts (Suc k) \<le> 0
            \<and> (\<forall>j<k. 0 < residual (fmul d (totalWeight acts)) acts (Suc j))
            \<longrightarrow> selectAction env d acts = Some (acts ! k))
         \<and> ((\<forall>k<length acts. 0 < residual (fmul d (totalWeight acts)) acts (Suc k))
            \<longrightarrow> selectAction env d acts = Some (acts ! 0))
         \<and> selectAction env d acts \<noteq> None"
proof -
  have valid: "filter (conditions_hold env) acts = acts"
    using assms(2) by (rule filter_all_valid)
  have sel: "selectAction env d acts =
               (case walk (fmul d (totalWeight acts)) acts of
                  Some a \<Rightarrow> Some a | None \<Rightarrow> Some (acts ! 0))"
    using assms(1) by (simp add: selectAction_def valid)
  show ?thesis
    by (auto simp: sel walk_returns_first walk_none split: option.splits)
qed

lemma three_actions_weights:
  "map probability three_actions = [fl (35 / 100), fl (2 / 10), fl (9 / 10)]"
  by code_simp

lemma three_actions_total:
  "totalWeight three_actions = 1632554864921805 / 1125899906842624"
  by code_simp

lemma three_actions_valid:
  "filter (conditions_hold quiet_env) three_actions = three_actions"
  by (simp add: three_actions_def weighted_def conditions_hold_def)

lemma quarter_draw_product:
  "fmul (1 / 4) (1632554864921805 / 1125899906842624) = 1632554864921805 / 4503599627370496"
  by code_simp

lemma quarter_draw_residual_1:
  "residual (1632554864921805 / 4503599627370496) three_actions (Suc 0)
     = 112589990684263 / 9007199254740992"
  by code_simp

lemma quarter_draw_residual_2:
  "residual (1632554864921805 / 4503599627370496) three_actions (Suc 1) \<le> 0"
  by code_simp

lemma largest_draw_product:
  "fmul largest_draw (1632554864921805 / 1125899906842624) = 6530219459687219 / 4503599627370496"
  by code_simp

lemma three_actions_walk: "walk (6530219459687219 / 4503599627370496) three_actions = None"
  by code_simp

theorem selectAction_weighted_walk_witness:
  "three_actions \<noteq> [] \<and> list_all (conditions_hold quiet_env) three_actions
   \<and> selectAction quiet_env (1 / 4) three_actions = Some (three_actions ! 1)"
proof -
  have ne: "three_actions \<noteq> []" by (simp add: three_actions_def)
  have ok: "\<forall>a\<in>set three_actions. conditions_hold quiet_env a"
    by (simp add: three_actions_def weighted_def conditions_hold_def)
  have len: "1 < length three_actions" by (simp add: three_actions_def)
  have r1: "residual (fmul (1 / 4) (totalWeight three_actions)) three_actions (Suc 1) \<le> 0"
    by (simp only: three_actions_total quarter_draw_product quarter_draw_residual_2)
  have r0: "0 < residual (fmul (1 / 4) (totalWeight three_actions)) three_actions (Suc 0)"
    by (simp add: three_actions_total quarter_draw_product quarter_draw_residual_1)
  from r0 have before:
    "\<forall>j<1. 0 < residual (fmul (1 / 4) (totalWeight three_actions)) three_actions (Suc j)"
    by simp
  from selectAction_weighted_walk [OF ne ok, of "1 / 4"] len r1 before
  have "selectAction quiet_env (1 / 4) three_actions = Some (three_actions ! 1)" by blast
  with ne ok show ?thesis by (simp add: list_all_iff)
qed

text \<open>
  C2 as stated fails. With the weights 0.35, 0.2 and 0.9 the sum of the weights is
  1.4500000000000002, and with the draw \<open>1 - 2^-52\<close> the product is 1.45; the three
  subtractions leave 1.1, then 0.9000000000000001, then \<open>2^-53\<close>, which is still
  positive. So the walk ends without a return, and the function returns the first
  action, not the last.
\<close>

theorem selectAction_fallback_is_first_not_last:
  "0 \<le> largest_draw \<and> largest_draw < 1
   \<and> length three_actions = 3
   \<and> 0 < probability (three_actions ! 0) \<and> 0 < probability (three_actions ! 1)
   \<and> 0 < probability (three_actions ! 2)
   \<and> walk (fmul largest_draw (totalWeight three_actions)) three_actions = None
   \<and> selectAction quiet_env largest_draw three_actions = Some (three_actions ! 0)
   \<and> three_actions ! 0 \<noteq> last three_actions"
proof -
  have w: "walk (fmul largest_draw (totalWeight three_actions)) three_actions = None"
    by (simp only: three_actions_total largest_draw_product three_actions_walk)
  have ne: "three_actions \<noteq> []" by (simp add: three_actions_def)
  have s: "selectAction quiet_env largest_draw three_actions = Some (three_actions ! 0)"
    using ne by (simp add: selectAction_def three_actions_valid w)
  have rest: "0 \<le> largest_draw \<and> largest_draw < 1 \<and> length three_actions = 3
     \<and> 0 < probability (three_actions ! 0) \<and> 0 < probability (three_actions ! 1)
     \<and> 0 < probability (three_actions ! 2) \<and> three_actions ! 0 \<noteq> last three_actions"
    by (simp add: largest_draw_def three_actions_def weighted_def)
  from w s rest show ?thesis by simp
qed

subsection \<open>Content script: conditions\<close>

lemma check_entries_pass:
  "fst (check_entries env es) \<longleftrightarrow> \<not> list_ex (below_threshold env) es"
  by (induction env es rule: check_entries.induct)
     (simp_all add: and_then_def below_threshold_def)

lemma check_entries_calls_pass:
  "fst (check_entries env es) \<Longrightarrow> snd (check_entries env es) = metric_calls es"
  by (induction es) (auto simp: and_then_def metric_calls_def split: if_splits)

lemma check_entries_calls_fail:
  "\<not> fst (check_entries env es) \<Longrightarrow>
   \<exists>pre entry post. es = pre @ entry # post \<and> \<not> list_ex (below_threshold env) pre
      \<and> below_threshold env entry
      \<and> snd (check_entries env es) = metric_calls pre @ [GetMetric (fst entry)]"
proof (induction es)
  case Nil
  then show ?case by simp
next
  case (Cons e es)
  obtain m th where e: "e = (m, th)" by (cases e)
  show ?case
  proof (cases "js_lt (getMetric env m) th")
    case True
    then have "e # es = [] @ e # es \<and> \<not> list_ex (below_threshold env) []
        \<and> below_threshold env e
        \<and> snd (check_entries env (e # es)) = metric_calls [] @ [GetMetric (fst e)]"
      by (simp add: e below_threshold_def metric_calls_def)
    then show ?thesis by blast
  next
    case False
    with Cons.prems have "\<not> fst (check_entries env es)"
      by (simp add: e and_then_def)
    from Cons.IH [OF this] obtain pre entry post where
      h: "es = pre @ entry # post" "\<not> list_ex (below_threshold env) pre"
         "below_threshold env entry"
         "snd (check_entries env es) = metric_calls pre @ [GetMetric (fst entry)]"
      by blast
    have "e # es = (e # pre) @ entry # post \<and> \<not> list_ex (below_threshold env) (e # pre)
        \<and> below_threshold env entry
        \<and> snd (check_entries env (e # es)) = metric_calls (e # pre) @ [GetMetric (fst entry)]"
      using h False by (simp add: e and_then_def below_threshold_def metric_calls_def)
    then show ?thesis by blast
  qed
qed

lemmas check_defs =
  checkActionConditions_def and_then_def check_minTimeOnPage_def check_maxTimeOnPage_def
  check_elementExists_def check_elementNotExists_def check_goalProgress_def

lemmas fail_defs =
  min_time_fails_def max_time_fails_def element_exists_fails_def element_absent_fails_def
  goal_progress_fails_def

lemmas call_defs =
  min_time_calls_def max_time_calls_def exists_calls_def absent_calls_def goal_calls_def
  all_calls_def

lemma checkActionConditions_result:
  "fst (checkActionConditions env c) \<longleftrightarrow>
     \<not> min_time_fails env c \<and> \<not> max_time_fails env c \<and> \<not> element_exists_fails env c
     \<and> \<not> element_absent_fails env c \<and> \<not> goal_progress_fails env c"
  by (auto simp: check_defs fail_defs check_entries_pass split: option.splits)

lemma calls_all_pass:
  "fst (checkActionConditions env c) \<Longrightarrow> snd (checkActionConditions env c) = all_calls c"
  by (auto simp: check_defs call_defs check_entries_calls_pass split: option.splits if_splits)

lemma calls_min_fails:
  "min_time_fails env c \<Longrightarrow> snd (checkActionConditions env c) = min_time_calls c"
  by (auto simp: check_defs fail_defs call_defs split: option.splits)

lemma calls_max_fails:
  "\<not> min_time_fails env c \<Longrightarrow> max_time_fails env c \<Longrightarrow>
   snd (checkActionConditions env c) = min_time_calls c @ max_time_calls c"
  by (auto simp: check_defs fail_defs call_defs split: option.splits)

lemma calls_exists_fails:
  "\<not> min_time_fails env c \<Longrightarrow> \<not> max_time_fails env c \<Longrightarrow> element_exists_fails env c \<Longrightarrow>
   snd (checkActionConditions env c) = min_time_calls c @ max_time_calls c @ exists_calls c"
  by (auto simp: check_defs fail_defs call_defs split: option.splits)

lemma calls_absent_fails:
  "\<not> min_time_fails env c \<Longrightarrow> \<not> max_time_fails env c \<Longrightarrow> \<not> element_exists_fails env c \<Longrightarrow>
   element_absent_fails env c \<Longrightarrow>
   snd (checkActionConditions env c)
     = min_time_calls c @ max_time_calls c @ exists_calls c @ absent_calls c"
  by (auto simp: check_defs fail_defs call_defs split: option.splits)

lemma calls_goal_fails:
  assumes "\<not> min_time_fails env c" "\<not> max_time_fails env c" "\<not> element_exists_fails env c"
    "\<not> element_absent_fails env c" "goal_progress_fails env c"
  shows "\<exists>entries pre entry post. goalProgress c = Some entries \<and> entries = pre @ entry # post
      \<and> \<not> list_ex (below_threshold env) pre \<and> below_threshold env entry
      \<and> snd (checkActionConditions env c)
          = min_time_calls c @ max_time_calls c @ exists_calls c @ absent_calls c
            @ metric_calls pre @ [GetMetric (fst entry)]"
proof -
  from assms(5) obtain entries where g: "goalProgress c = Some entries"
    and ex: "list_ex (below_threshold env) entries"
    by (auto simp: goal_progress_fails_def split: option.splits)
  from ex have "\<not> fst (check_entries env entries)" by (simp add: check_entries_pass)
  from check_entries_calls_fail [OF this] obtain pre entry post where
    h: "entries = pre @ entry # post" "\<not> list_ex (below_threshold env) pre"
       "below_threshold env entry"
       "snd (check_entries env entries) = metric_calls pre @ [GetMetric (fst entry)]"
    by blast
  have "snd (checkActionConditions env c)
          = min_time_calls c @ max_time_calls c @ exists_calls c @ absent_calls c
            @ snd (check_entries env entries)"
    using assms(1-4) g
    by (auto simp: check_defs fail_defs call_defs split: option.splits)
  then have "snd (checkActionConditions env c)
          = min_time_calls c @ max_time_calls c @ exists_calls c @ absent_calls c
            @ metric_calls pre @ [GetMetric (fst entry)]"
    using h(4) by simp
  with g h(1-3) show ?thesis by blast
qed

text \<open>
  C4. The conditions of an action are evaluated in the order: time on page (lower
  bound, then upper bound), required element, element required to be absent, then
  the goal-progress thresholds one metric after the other. The action is eligible iff
  no check fails; the calls made are an initial part of the full list of calls, the
  whole list when every check passes, and they end with the call of the first check
  that fails.
\<close>

theorem checkActionConditions_order_short_circuit:
  "(fst (checkActionConditions env c) \<longleftrightarrow>
      \<not> min_time_fails env c \<and> \<not> max_time_fails env c \<and> \<not> element_exists_fails env c
      \<and> \<not> element_absent_fails env c \<and> \<not> goal_progress_fails env c)
   \<and> (\<exists>rest. all_calls c = snd (checkActionConditions env c) @ rest)
   \<and> (fst (checkActionConditions env c) \<longrightarrow> snd (checkActionConditions env c) = all_calls c)
   \<and> (min_time_fails env c \<longrightarrow> snd (checkActionConditions env c) = min_time_calls c)
   \<and> (\<not> min_time_fails env c \<and> max_time_fails env c \<longrightarrow>
        snd (checkActionConditions env c) = min_time_calls c @ max_time_calls c)
   \<and> (\<not> min_time_fails env c \<and> \<not> max_time_fails env c \<and> element_exists_fails env c \<longrightarrow>
        snd (checkActionConditions env c) = min_time_calls c @ max_time_calls c @ exists_calls c)
   \<and> (\<not> min_time_fails env c \<and> \<not> max_time_fails env c \<and> \<not> element_exists_fails env c
        \<and> element_absent_fails env c \<longrightarrow>
        snd (checkActionConditions env c)
          = min_time_calls c @ max_time_calls c @ exists_calls c @ absent_calls c)
   \<and> (\<not> min_time_fails env c \<and> \<not> max_time_fails env c \<and> \<not> element_exists_fails env c
        \<and> \<not> element_absent_fails env c \<and> goal_progress_fails env c \<longrightarrow>
        (\<exists>entries pre entry post.
            goalProgress c = Some entries \<and> entries = pre @ entry # post
            \<and> \<not> list_ex (below_threshold env) pre \<and> below_threshold env entry
            \<and> snd (checkActionConditions env c)
                = min_time_calls c @ max_time_calls c @ exists_calls c @ absent_calls c
                  @ metric_calls pre @ [GetMetric (fst entry)]))"
proof -
  have prefix: "\<exists>rest. all_calls c = snd (checkActionConditions env c) @ rest"
  proof (cases "fst (checkActionConditions env c)")
    case True
    then show ?thesis by (simp add: calls_all_pass)
  next
    case False
    then consider
        (a) "min_time_fails env c"
      | (b) "\<not> min_time_fails env c" "max_time_fails env c"
      | (c) "\<not> min_time_fails env c" "\<not> max_time_fails env c" "element_exists_fails env c"
      | (d) "\<not> min_time_fails env c" "\<not> max_time_fails env c" "\<not> element_exists_fails env c"
            "element_absent_fails env c"
      | (e) "\<not> min_time_fails env c" "\<not> max_time_fails env c" "\<not> element_exists_fails env c"
            "\<not> element_absent_fails env c" "goal_progress_fails env c"
      using checkActionConditions_result [of env c] by blast
    then show ?thesis
    proof cases
      case a
      then show ?thesis by (simp add: calls_min_fails all_calls_def)
    next
      case b
      then show ?thesis by (simp add: calls_max_fails all_calls_def)
    next
      case c
      then show ?thesis by (simp add: calls_exists_fails all_calls_def)
    next
      case d
      then show ?thesis by (simp add: calls_absent_fails all_calls_def)
    next
      case e
      from calls_goal_fails [OF e] obtain entries pre entry post where
        h: "goalProgress c = Some entries" "entries = pre @ entry # post"
           "snd (checkActionConditions env c)
              = min_time_calls c @ max_time_calls c @ exists_calls c @ absent_calls c
                @ metric_calls pre @ [GetMetric (fst entry)]"
        by blast
      then show ?thesis by (simp add: all_calls_def goal_calls_def metric_calls_def)
    qed
  qed
  show ?thesis
    using prefix checkActionConditions_result [of env c] calls_all_pass [of env c]
      calls_min_fails [of env c] calls_max_fails [of env c] calls_exists_fails [of env c]
      calls_absent_fails [of env c] calls_goal_fails [of env c]
    by blast
qed

theorem checkActionConditions_order_short_circuit_witness:
  "\<not> min_time_fails five_seconds_env full_conditions
   \<and> \<not> max_time_fails five_seconds_env full_conditions
   \<and> element_exists_fails five_seconds_env full_conditions
   \<and> checkActionConditions five_seconds_env full_conditions
       = (False, [GetTimeOnCurrentPage, GetTimeOnCurrentPage, FindElement ''#buy''])"
proof -
  have a: "\<not> min_time_fails five_seconds_env full_conditions" by code_simp
  have b: "\<not> max_time_fails five_seconds_env full_conditions" by code_simp
  have c: "element_exists_fails five_seconds_env full_conditions" by code_simp
  have calls: "min_time_calls full_conditions @ max_time_calls full_conditions
                 @ exists_calls full_conditions
               = [GetTimeOnCurrentPage, GetTimeOnCurrentPage, FindElement ''#buy'']"
    by code_simp
  from checkActionConditions_order_short_circuit [of five_seconds_env full_conditions] a b c
  have "\<not> fst (checkActionConditions five_seconds_env full_conditions)"
    and "snd (checkActionConditions five_seconds_env full_conditions)
           = min_time_calls full_conditions @ max_time_calls full_conditions
             @ exists_calls full_conditions"
    by blast+
  with calls have "checkActionConditions five_seconds_env full_conditions
                     = (False, [GetTimeOnCurrentPage, GetTimeOnCurrentPage, FindElement ''#buy''])"
    by (simp add: prod_eq_iff)
  with a b c show ?thesis by simp
qed

text \<open>
  C5 (as amended). The values of \<open>minTimeOnPage\<close> and \<open>maxTimeOnPage\<close> are seconds: each
  is multiplied by 1000 before it is compared with the tracked time on the page, which
  is in milliseconds. The time-on-page check fails exactly when \<open>minTimeOnPage\<close> is set
  and not 0 and the tracked time is below \<open>minTimeOnPage * 1000\<close>, or \<open>maxTimeOnPage\<close> is
  set and not 0 and the tracked time is above \<open>maxTimeOnPage * 1000\<close>; when it fails the
  action is not eligible.
\<close>

theorem time_bounds_are_seconds:
  "(fst (check_minTimeOnPage env c) \<and> fst (check_maxTimeOnPage env c) \<longleftrightarrow>
      \<not> ((\<exists>m. minTimeOnPage c = Some m \<and> m \<noteq> 0 \<and> timeOnPage env < fmul m 1000)
         \<or> (\<exists>m. maxTimeOnPage c = Some m \<and> m \<noteq> 0 \<and> fmul m 1000 < timeOnPage env)))
   \<and> ((\<exists>m. minTimeOnPage c = Some m \<and> m \<noteq> 0 \<and> timeOnPage env < fmul m 1000)
         \<or> (\<exists>m. maxTimeOnPage c = Some m \<and> m \<noteq> 0 \<and> fmul m 1000 < timeOnPage env)
       \<longrightarrow> \<not> fst (checkActionConditions env c))"
  by (auto simp: checkActionConditions_def and_then_def check_minTimeOnPage_def
        check_maxTimeOnPage_def split: option.splits)

theorem time_bounds_are_seconds_witness:
  "minTimeOnPage min_two = Some 2 \<and> timeOnPage env_1500 < fmul 2 1000
   \<and> \<not> fst (checkActionConditions env_1500 min_two)"
proof -
  have a: "minTimeOnPage min_two = Some 2" by (simp add: min_two_def empty_conditions_def)
  have b: "timeOnPage env_1500 < fmul 2 1000" by code_simp
  from a b have "\<exists>m. minTimeOnPage min_two = Some m \<and> m \<noteq> 0 \<and> timeOnPage env_1500 < fmul m 1000"
    by simp
  with time_bounds_are_seconds [of env_1500 min_two]
  have "\<not> fst (checkActionConditions env_1500 min_two)" by blast
  with a b show ?thesis by simp
qed

text \<open>
  C5 as stated fails. After 1500 ms on the page a lower bound of 2 makes the check
  fail, although 1500 is not below 2: the bound is 2 seconds. And an upper bound of 0
  is not applied at all.
\<close>

theorem time_bounds_not_milliseconds:
  "minTimeOnPage min_two = Some 2 \<and> maxTimeOnPage min_two = None
   \<and> timeOnPage env_1500 = 1500 \<and> \<not> (1500 < (2 :: num))
   \<and> \<not> fst (checkActionConditions env_1500 min_two)
   \<and> maxTimeOnPage max_zero = Some 0 \<and> (0 :: num) < 1500
   \<and> fst (checkActionConditions env_1500 max_zero)"
  by code_simp

subsection \<open>Content script: run loop\<close>

lemma logAction_fields [simp]:
  "isRunning (logAction t s) = isRunning s"
  "isPaused (logAction t s) = isPaused s"
  "tracker_updates (logAction t s) = tracker_updates s"
  "tracker_metrics (logAction t s) = tracker_metrics s"
  "microRuns (logAction t s) = microRuns s"
  "executionTimer (logAction t s) = executionTimer s"
  "timers (logAction t s) = timers s"
  "nextTimerId (logAction t s) = nextTimerId s"
  "currentScenario (logAction t s) = currentScenario s"
  "currentPage (logAction t s) = currentPage s"
  "log (logAction t s) = log s @ [LogAction t]"
  by (simp_all add: logAction_def)

lemma logError_fields [simp]:
  "isRunning (logError t e s) = isRunning s"
  "isPaused (logError t e s) = isPaused s"
  "tracker_updates (logError t e s) = tracker_updates s"
  "tracker_metrics (logError t e s) = tracker_metrics s"
  "microRuns (logError t e s) = microRuns s"
  "executionTimer (logError t e s) = executionTimer s"
  "timers (logError t e s) = timers s"
  "nextTimerId (logError t e s) = nextTimerId s"
  "currentScenario (logError t e s) = currentScenario s"
  "currentPage (logError t e s) = currentPage s"
  "log (logError t e s) = log s @ [LogError t e]"
  by (simp_all add: logError_def)

lemma clearExecutionTimer_fields [simp]:
  "isRunning (clearExecutionTimer s) = isRunning s"
  "isPaused (clearExecutionTimer s) = isPaused s"
  "tracker_updates (clearExecutionTimer s) = tracker_updates s"
  "tracker_metrics (clearExecutionTimer s) = tracker_metrics s"
  "log (clearExecutionTimer s) = log s"
  "microRuns (clearExecutionTimer s) = microRuns s"
  "executionTimer (clearExecutionTimer s) = None"
  by (simp_all add: clearExecutionTimer_def split: option.splits)

lemma stopAutomation_fields [simp]:
  "isRunning (stopAutomation s) = False"
  "isPaused (stopAutomation s) = False"
  "tracker_updates (stopAutomation s) = tracker_updates s"
  "tracker_metrics (stopAutomation s) = tracker_metrics s"
  "microRuns (stopAutomation s) = microRuns s"
  "executionTimer (stopAutomation s) = None"
  "log (stopAutomation s) = log s @ [LogAction ''session_ended'']"
  by (simp_all add: stopAutomation_def)

lemma pauseAutomation_fields [simp]:
  "isRunning (pauseAutomation s) = isRunning s"
  "isPaused (pauseAutomation s) = True"
  "tracker_updates (pauseAutomation s) = tracker_updates s"
  "tracker_metrics (pauseAutomation s) = tracker_metrics s"
  "microRuns (pauseAutomation s) = microRuns s"
  "executionTimer (pauseAutomation s) = None"
  by (simp_all add: pauseAutomation_def)

lemma updateMetrics_fields [simp]:
  "isRunning (updateMetrics d s) = isRunning s"
  "isPaused (updateMetrics d s) = isPaused s"
  "nextTimerId (updateMetrics d s) = nextTimerId s"
  "microRuns (updateMetrics d s) = microRuns s"
  "currentPage (updateMetrics d s) = currentPage s"
  "tracker_updates (updateMetrics d s) = tracker_updates s @ [d]"
  by (simp_all add: updateMetrics_def)

lemma detectCurrentPage_fields [simp]:
  "isRunning (detectCurrentPage s) = isRunning s"
  "isPaused (detectCurrentPage s) = isPaused s"
  "nextTimerId (detectCurrentPage s) = nextTimerId s"
  "microRuns (detectCurrentPage s) = microRuns s"
  "tracker_updates (detectCurrentPage s) = tracker_updates s"
  "tracker_metrics (detectCurrentPage s) = tracker_metrics s"
  by (simp_all add: detectCurrentPage_def split: list.splits option.splits)

lemma poll_page_fields [simp]:
  "isRunning (poll_page n t s) = isRunning s"
  "isPaused (poll_page n t s) = isPaused s"
  "nextTimerId (poll_page n t s) = nextTimerId s"
  "microRuns (poll_page n t s) = microRuns s"
  "tracker_updates (poll_page n t s) = tracker_updates s"
  "tracker_metrics (poll_page n t s) = tracker_metrics s"
  by (induction n arbitrary: s) (simp_all add: Let_def)

lemma undisturbed_simps [simp]:
  "undisturbed [] = True"
  "undisturbed ((cmds, out) # rest) \<longleftrightarrow>
     cmds = [] \<and> (\<forall>e. out = Throws e \<longrightarrow> \<not> shouldAbortOnError e) \<and> undisturbed rest"
  by (auto simp: undisturbed_def split: outcome.splits)



lemma executeActionSequence_throws_fatal:
  "fst (executeActionSequence ms s) = Throws e \<Longrightarrow> shouldAbortOnError e"
proof (induction ms arbitrary: s)
  case Nil
  then show ?case by simp
next
  case (Cons m ms)
  then show ?case
    by (auto split: if_splits prod.splits outcome.splits)
qed

lemma executeActionSequence_throws_fatal_pair:
  "executeActionSequence ms s = (Throws e, s') \<Longrightarrow> shouldAbortOnError e"
  using executeActionSequence_throws_fatal [of ms s e] by simp

lemma executeActionSequence_Nil_steps:
  "(case microSequence a of
      None \<Rightarrow> (Completes, s)
    | Some ms \<Rightarrow> if ms = [] then (Completes, s) else executeActionSequence ms s)
   = executeActionSequence (micro_steps a) s"
  by (simp add: micro_steps_def split: option.splits)

lemma executeSelectedAction_throws_fatal:
  "fst (executeSelectedAction env a s) = Throws e \<Longrightarrow> shouldAbortOnError e"
  unfolding executeSelectedAction_def Let_def executeActionSequence_Nil_steps
  using executeActionSequence_throws_fatal [of "micro_steps a" "logAction ''action_started'' s" e]
  by (auto split: if_splits prod.splits outcome.splits)


lemma executePageActions_throws_fatal:
  assumes "executePageActions env pc s = (Throws e, s')"
  shows "shouldAbortOnError e"
proof -
  define entry where "entry = (case entryActions pc of
              None \<Rightarrow> (Completes, s)
            | Some ea \<Rightarrow> executeActionSequence ea s)"
  obtain r1 s1 where e1: "entry = (r1, s1)" by (cases entry)
  show ?thesis
  proof (cases r1)
    case (Throws e')
    with assms e1 have "e' = e"
      by (simp add: executePageActions_def entry_def [symmetric])
    moreover from Throws e1 have "shouldAbortOnError e'"
      by (auto simp: entry_def split: option.splits
               dest: executeActionSequence_throws_fatal_pair)
    ultimately show ?thesis by simp
  next
    case Completes
    with assms e1 have "\<exists>a s2. executeSelectedAction env a s1 = (Throws e, s2)"
      by (auto simp: executePageActions_def entry_def [symmetric] Let_def
               split: if_splits option.splits prod.splits outcome.splits)
    then obtain a s2 where "executeSelectedAction env a s1 = (Throws e, s2)" by blast
    then have "fst (executeSelectedAction env a s1) = Throws e" by simp
    then show ?thesis by (rule executeSelectedAction_throws_fatal)
  qed
qed




lemma handleExecutionError_fatal:
  "shouldAbortOnError e \<Longrightarrow> handleExecutionError env e s = stopAutomation (logError ''execution_error'' e s)"
  by (simp add: handleExecutionError_def Let_def)

lemma handle_interrupt_tracker [simp]:
  "tracker_updates (handle_interrupt s c) = tracker_updates s"
  "tracker_metrics (handle_interrupt s c) = tracker_metrics s"
  by (simp_all add: handle_interrupt_def split: interrupt.splits)

lemma interrupts_tracker [simp]:
  "tracker_updates (foldl handle_interrupt s cmds) = tracker_updates s"
  "tracker_metrics (foldl handle_interrupt s cmds) = tracker_metrics s"
  by (induction cmds arbitrary: s) simp_all

lemma executeMicroAction_tracker:
  "tracker_updates (snd (executeMicroAction m s)) = tracker_updates s"
  "tracker_metrics (snd (executeMicroAction m s)) = tracker_metrics s"
  by (simp_all add: executeMicroAction_def Let_def split: list.splits prod.splits)

lemma executeActionSequence_tracker:
  "tracker_updates (snd (executeActionSequence ms s)) = tracker_updates s
   \<and> tracker_metrics (snd (executeActionSequence ms s)) = tracker_metrics s"
proof (induction ms arbitrary: s)
  case Nil
  then show ?case by simp
next
  case (Cons m ms)
  obtain r s' where ex: "executeMicroAction m s = (r, s')" by (cases "executeMicroAction m s")
  with executeMicroAction_tracker [of m s]
  have t: "tracker_updates s' = tracker_updates s" "tracker_metrics s' = tracker_metrics s"
    by simp_all
  show ?case
  proof (cases r)
    case Completes
    with ex t Cons.IH [of s'] show ?thesis by simp
  next
    case (Throws e)
    with ex t Cons.IH [of "logError ''micro_action_failed'' e s'"] show ?thesis by simp
  qed
qed

lemma cond_env_of_logAction [simp]: "cond_env_of env (logAction t s) = cond_env_of env s"
  by (simp add: cond_env_of_def)

lemma executeActionSequence_stopped:
  "\<not> isRunning s \<or> isPaused s \<Longrightarrow> executeActionSequence ms s = (Completes, s)"
  by (cases ms) auto

lemma executeActionSequence_append:
  "executeActionSequence (pre @ rest) s
     = (case executeActionSequence pre s of
          (Completes, s1) \<Rightarrow> executeActionSequence rest s1
        | (Throws e, s1) \<Rightarrow> (Throws e, s1))"
proof (induction pre arbitrary: s)
  case Nil
  then show ?case by simp
next
  case (Cons m pre)
  show ?case
  proof (cases "\<not> isRunning s \<or> isPaused s")
    case True
    then show ?thesis by (auto simp: executeActionSequence_stopped)
  next
    case False
    obtain r s' where ex: "executeMicroAction m s = (r, s')" by (cases "executeMicroAction m s")
    show ?thesis
    proof (cases r)
      case Completes
      with ex False Cons.IH [of s'] show ?thesis by simp
    next
      case (Throws e)
      with ex False Cons.IH [of "logError ''micro_action_failed'' e s'"] show ?thesis by simp
    qed
  qed
qed

lemma sequence_step_fatal:
  assumes "executeActionSequence pre s = (Completes, s1)" "isRunning s1" "\<not> isPaused s1"
    "executeMicroAction m s1 = (Throws e, s2)" "shouldAbortOnError e"
  shows "executeActionSequence (pre @ m # rest) s = (Throws e, s2)"
  using assms by (simp add: executeActionSequence_append)

lemma sequence_step_logged:
  assumes "executeActionSequence pre s = (Completes, s1)" "isRunning s1" "\<not> isPaused s1"
    "executeMicroAction m s1 = (Throws e, s2)" "\<not> shouldAbortOnError e"
  shows "executeActionSequence (pre @ m # rest) s
           = executeActionSequence rest (logError ''micro_action_failed'' e s2)"
  using assms by (simp add: executeActionSequence_append)

lemma sequence_step_completes:
  assumes "executeActionSequence pre s = (Completes, s1)" "isRunning s1" "\<not> isPaused s1"
    "executeMicroAction m s1 = (Completes, s2)"
  shows "executeActionSequence (pre @ m # rest) s = executeActionSequence rest s2"
  using assms by (simp add: executeActionSequence_append)

lemma sequence_cut_short:
  assumes "executeActionSequence pre s = (Completes, s1)" "\<not> isRunning s1 \<or> isPaused s1"
  shows "executeActionSequence (pre @ rest) s = (Completes, s1)"
  using assms by (simp add: executeActionSequence_append executeActionSequence_stopped)

lemma stopAutomation_log: "log (stopAutomation s) = log s @ [LogAction ''session_ended'']"
  by (simp add: stopAutomation_def clearExecutionTimer_def logAction_def split: option.splits)

lemma pauseAutomation_log: "log (pauseAutomation s) = log s @ [LogAction ''session_paused'']"
  by (simp add: pauseAutomation_def clearExecutionTimer_def logAction_def split: option.splits)

lemma interrupts_log: "\<exists>ext. log (foldl handle_interrupt s cmds) = log s @ ext"
proof (induction cmds arbitrary: s)
  case Nil
  then show ?case by simp
next
  case (Cons c cmds)
  from Cons.IH [of "handle_interrupt s c"] obtain ext where
    "log (foldl handle_interrupt (handle_interrupt s c) cmds) = log (handle_interrupt s c) @ ext"
    by blast
  moreover have "\<exists>x. log (handle_interrupt s c) = log s @ [x]"
    by (cases c) (simp_all add: handle_interrupt_def stopAutomation_log pauseAutomation_log)
  ultimately show ?case by auto
qed

lemma executeMicroAction_log: "\<exists>ext. log (snd (executeMicroAction m s)) = log s @ ext"
proof (cases "ma_type m \<in> set known_micro_types")
  case False
  then show ?thesis by (simp add: executeMicroAction_def)
next
  case True
  define s0 where "s0 = (if ma_type m = ''log'' then logAction ''custom_log'' s else s)"
  have l0: "\<exists>ext. log s0 = log s @ ext" by (simp add: s0_def)
  show ?thesis
  proof (cases "microRuns s0")
    case Nil
    with True l0 show ?thesis by (simp add: executeMicroAction_def s0_def [symmetric])
  next
    case (Cons run rest)
    obtain cmds out where run: "run = (cmds, out)" by (cases run)
    from interrupts_log [of "s0\<lparr>microRuns := rest\<rparr>" cmds] obtain ext where
      "log (foldl handle_interrupt (s0\<lparr>microRuns := rest\<rparr>) cmds) = log s0 @ ext" by auto
    with True Cons run l0 show ?thesis
      by (auto simp: executeMicroAction_def s0_def [symmetric])
  qed
qed

lemma executeActionSequence_log:
  "\<exists>ext. log (snd (executeActionSequence ms s)) = log s @ ext"
proof (induction ms arbitrary: s)
  case Nil
  then show ?case by simp
next
  case (Cons m ms)
  obtain r s' where ex: "executeMicroAction m s = (r, s')" by (cases "executeMicroAction m s")
  from executeMicroAction_log [of m s] ex obtain e1 where l1: "log s' = log s @ e1" by auto
  show ?case
  proof (cases "\<not> isRunning s \<or> isPaused s")
    case True
    then show ?thesis by auto
  next
    case False
    show ?thesis
    proof (cases r)
      case Completes
      from Cons.IH [of s'] obtain e2 where
        "log (snd (executeActionSequence ms s')) = log s' @ e2" by blast
      with ex False Completes l1 show ?thesis by simp
    next
      case (Throws e)
      from Cons.IH [of "logError ''micro_action_failed'' e s'"] obtain e2 where
        "log (snd (executeActionSequence ms (logError ''micro_action_failed'' e s')))
           = log (logError ''micro_action_failed'' e s') @ e2" by blast
      with ex False Throws l1 show ?thesis by (cases "shouldAbortOnError e") simp_all
    qed
  qed
qed

lemma sequence_step_in_log:
  assumes "executeActionSequence pre s = (Completes, s1)" "isRunning s1" "\<not> isPaused s1"
    "executeMicroAction m s1 = (Throws e, s2)" "\<not> shouldAbortOnError e"
  shows "LogError ''micro_action_failed'' e
           \<in> set (log (snd (executeActionSequence (pre @ m # rest) s)))"
proof -
  from executeActionSequence_log [of rest "logError ''micro_action_failed'' e s2"]
  obtain ext where
    "log (snd (executeActionSequence rest (logError ''micro_action_failed'' e s2)))
       = log (logError ''micro_action_failed'' e s2) @ ext" by blast
  then show ?thesis
    by (simp add: sequence_step_logged [OF assms])
qed

lemma updateMetrics_log [simp]: "log (updateMetrics d s) = log s"
  by (simp add: updateMetrics_def)

lemma detectCurrentPage_log [simp]: "log (detectCurrentPage s) = log s"
  by (simp add: detectCurrentPage_def split: list.splits option.splits)

lemma poll_page_log [simp]: "log (poll_page n t s) = log s"
  by (induction n arbitrary: s) (simp_all add: Let_def)

lemma executeSelectedAction_skipped:
  "\<not> conditions_hold (cond_env_of env s) a \<Longrightarrow>
   executeSelectedAction env a s = (Completes, logAction ''action_started'' s)"
  by (simp add: executeSelectedAction_def Let_def)

lemma executeSelectedAction_throws:
  assumes "conditions_hold (cond_env_of env s) a"
    and "executeActionSequence (micro_steps a) (logAction ''action_started'' s) = (Throws e, s2)"
  shows "executeSelectedAction env a s = (Throws e, logError ''action_execution_failed'' e s2)"
  unfolding executeSelectedAction_def Let_def executeActionSequence_Nil_steps
  using assms by simp

lemma executeSelectedAction_returns:
  assumes "conditions_hold (cond_env_of env s) a"
    and "executeActionSequence (micro_steps a) (logAction ''action_started'' s) = (Completes, s2)"
  shows "fst (executeSelectedAction env a s) = Completes
         \<and> tracker_updates (snd (executeSelectedAction env a s))
             = tracker_updates s @ (case impact a of None \<Rightarrow> [] | Some deltas \<Rightarrow> [deltas])
         \<and> (\<exists>ext. log (snd (executeSelectedAction env a s)) = log s2 @ ext)"
proof -
  from executeActionSequence_tracker [of "micro_steps a" "logAction ''action_started'' s"] assms(2)
  have t2: "tracker_updates s2 = tracker_updates s" by simp
  show ?thesis
    unfolding executeSelectedAction_def Let_def executeActionSequence_Nil_steps
    using assms t2
    by (auto simp: handlePageTransition_def split: option.splits)
qed

lemma executePageActions_entry_throws:
  "entryActions pc = Some ea \<Longrightarrow> executeActionSequence ea s = (Throws e, s1) \<Longrightarrow>
   executePageActions env pc s = (Throws e, s1)"
  by (simp add: executePageActions_def)


lemma executeScenario_fatal:
  assumes "isRunning s" "\<not> isPaused s" "\<not> goalsMet env" "\<not> timedOut env"
    "getPageConfiguration s = Some pc" "executePageActions env pc s = (Throws e, s')"
  shows "shouldAbortOnError e
         \<and> executeScenario env s = stopAutomation (logError ''execution_error'' e s')
         \<and> \<not> isRunning (executeScenario env s)
         \<and> LogError ''execution_error'' e \<in> set (log (executeScenario env s))"
proof -
  from assms(6) have fatal: "shouldAbortOnError e" by (rule executePageActions_throws_fatal)
  with assms have "executeScenario env s = stopAutomation (logError ''execution_error'' e s')"
    by (simp add: executeScenario_def handleExecutionError_fatal)
  with fatal show ?thesis by (simp add: stopAutomation_log)
qed


lemma fatal_in_entry_stops:
  assumes run: "isRunning s" "\<not> isPaused s" "\<not> goalsMet env" "\<not> timedOut env"
    and cfg: "getPageConfiguration s = Some pc"
    and steps: "entryActions pc = Some (pre @ m # rest)"
    and pre: "executeActionSequence pre s = (Completes, s1)"
    and run1: "isRunning s1" "\<not> isPaused s1"
    and thrown: "executeMicroAction m s1 = (Throws e, s2)"
    and fatal: "shouldAbortOnError e"
  shows "executeScenario env s = stopAutomation (logError ''execution_error'' e s2)
         \<and> \<not> isRunning (executeScenario env s)"
proof -
  from sequence_step_fatal [OF pre run1 thrown fatal, of rest]
  have seq: "executeActionSequence (pre @ m # rest) s = (Throws e, s2)" .
  from executePageActions_entry_throws [OF steps seq]
  have "executePageActions env pc s = (Throws e, s2)" .
  from executeScenario_fatal [OF run cfg this] show ?thesis by simp
qed

lemma more_fields [simp]:
  "timers (updateMetrics d s) = timers s"
  "executionTimer (updateMetrics d s) = executionTimer s"
  "timers (detectCurrentPage s) = timers s"
  "executionTimer (detectCurrentPage s) = executionTimer s"
  by (simp_all add: updateMetrics_def detectCurrentPage_def split: list.splits option.splits)

lemma poll_page_timers [simp]:
  "timers (poll_page n t s) = timers s"
  "executionTimer (poll_page n t s) = executionTimer s"
  by (induction n arbitrary: s) (simp_all add: Let_def)

lemma clearExecutionTimer_timers: "set (timers (clearExecutionTimer s)) \<subseteq> set (timers s)"
  by (auto simp: clearExecutionTimer_def split: option.splits)



lemma settled_refl: "halted s \<longrightarrow> executionTimer s = None \<Longrightarrow> settled s s"
  by (simp add: settled_def)




















lemma paused_midway_run:
  "tracker_updates (snd (executeSelectedAction calm_tick visit_action paused_midway))
     = [[(''visits'', 1)]]
   \<and> isPaused (snd (executeSelectedAction calm_tick visit_action paused_midway))
   \<and> microRuns (snd (executeSelectedAction calm_tick visit_action paused_midway))
       = [([], Completes)]"
  by code_simp

lemma paused_midway_incomplete:
  "\<not> sequence_completes_successfully (micro_steps visit_action)
       (logAction ''action_started'' paused_midway)"
  by code_simp

lemma failing_step_run:
  "tracker_updates (snd (executeSelectedAction calm_tick visit_action failing_step))
     = [[(''visits'', 1)]]
   \<and> log (snd (executeSelectedAction calm_tick visit_action failing_step))
       = [LogAction ''action_started'',
          LogError ''micro_action_failed'' (Some ''Element not found: #buy''),
          LogAction ''action_completed'']"
  by code_simp

lemma failing_step_incomplete:
  "\<not> sequence_completes_successfully (micro_steps visit_action)
       (logAction ''action_started'' failing_step)"
  by code_simp

lemma second_step_reached:
  "fst (executeActionSequence [\<lparr>ma_type = ''click''\<rparr>]
          (logAction ''action_started'' fatal_second_step)) = Completes
   \<and> isRunning (snd (executeActionSequence [\<lparr>ma_type = ''click''\<rparr>]
          (logAction ''action_started'' fatal_second_step)))
   \<and> \<not> isPaused (snd (executeActionSequence [\<lparr>ma_type = ''click''\<rparr>]
          (logAction ''action_started'' fatal_second_step)))"
  by code_simp

lemma second_step_throws:
  "fst (executeMicroAction \<lparr>ma_type = ''screenshot''\<rparr>
          (snd (executeActionSequence [\<lparr>ma_type = ''click''\<rparr>]
                  (logAction ''action_started'' fatal_second_step))))
     = Throws (Some ''Extension_Error: context invalidated'')"
  by code_simp

lemma extension_error_fatal: "shouldAbortOnError (Some ''Extension_Error: context invalidated'')"
  by code_simp

lemma visit_steps:
  "micro_steps visit_action = [\<lparr>ma_type = ''click''\<rparr>] @ \<lparr>ma_type = ''screenshot''\<rparr> # []"
  by (simp add: micro_steps_def visit_action_def)


lemma visit_conditions: "conditions_hold env visit_action"
  by (simp add: conditions_hold_def visit_action_def)

lemma first_step_paused:
  "fst (executeActionSequence [\<lparr>ma_type = ''click''\<rparr>]
          (logAction ''action_started'' paused_midway)) = Completes
   \<and> isPaused (snd (executeActionSequence [\<lparr>ma_type = ''click''\<rparr>]
          (logAction ''action_started'' paused_midway)))"
  by code_simp

lemma first_step_fails:
  "fst (executeMicroAction \<lparr>ma_type = ''click''\<rparr> (logAction ''action_started'' failing_step))
     = Throws (Some ''Element not found: #buy'')
   \<and> \<not> shouldAbortOnError (Some ''Element not found: #buy'')"
  by code_simp





lemma failing_step_tick_log:
  "log (executeScenario calm_tick failing_step)
       = [LogAction ''action_started'',
          LogError ''micro_action_failed'' (Some ''Element not found: #buy''),
          LogAction ''action_completed'']"
  by code_simp

lemma sequence_throws_at_step:
  "executeActionSequence ms s = (Throws e, s2) \<Longrightarrow>
   \<exists>pre m rest s1. ms = pre @ m # rest
      \<and> executeActionSequence pre s = (Completes, s1) \<and> isRunning s1 \<and> \<not> isPaused s1
      \<and> executeMicroAction m s1 = (Throws e, s2) \<and> shouldAbortOnError e"
proof (induction ms arbitrary: s)
  case Nil
  then show ?case by simp
next
  case (Cons m ms)
  from Cons.prems have run: "isRunning s" "\<not> isPaused s"
    by (auto split: if_splits)
  obtain r s' where ex: "executeMicroAction m s = (r, s')" by (cases "executeMicroAction m s")
  show ?case
  proof (cases r)
    case Completes
    with Cons.prems run ex have "executeActionSequence ms s' = (Throws e, s2)" by simp
    from Cons.IH [OF this] obtain pre m' rest s1 where
      d: "ms = pre @ m' # rest" "executeActionSequence pre s' = (Completes, s1)"
         "isRunning s1" "\<not> isPaused s1" "executeMicroAction m' s1 = (Throws e, s2)"
         "shouldAbortOnError e" by blast
    from d(2) run ex Completes have "executeActionSequence (m # pre) s = (Completes, s1)" by simp
    moreover from d(1) have "m # ms = (m # pre) @ m' # rest" by simp
    ultimately show ?thesis using d(3-6) by blast
  next
    case (Throws e')
    show ?thesis
    proof (cases "shouldAbortOnError e'")
      case True
      with Cons.prems run ex Throws have "e = e'" "s2 = s'" by simp_all
      with run ex Throws True have
        "m # ms = [] @ m # ms \<and> executeActionSequence [] s = (Completes, s) \<and> isRunning s
         \<and> \<not> isPaused s \<and> executeMicroAction m s = (Throws e, s2) \<and> shouldAbortOnError e"
        by simp
      then show ?thesis by blast
    next
      case False
      with Cons.prems run ex Throws have
        "executeActionSequence ms (logError ''micro_action_failed'' e' s') = (Throws e, s2)" by simp
      from Cons.IH [OF this] obtain pre m' rest s1 where
        d: "ms = pre @ m' # rest"
           "executeActionSequence pre (logError ''micro_action_failed'' e' s') = (Completes, s1)"
           "isRunning s1" "\<not> isPaused s1" "executeMicroAction m' s1 = (Throws e, s2)"
           "shouldAbortOnError e" by blast
      from d(2) run ex Throws False have "executeActionSequence (m # pre) s = (Completes, s1)"
        by simp
      moreover from d(1) have "m # ms = (m # pre) @ m' # rest" by simp
      ultimately show ?thesis using d(3-6) by blast
    qed
  qed
qed

lemma executeSelectedAction_keeps_log:
  assumes cond: "conditions_hold (cond_env_of env s) a"
    and x: "x \<in> set (log (snd (executeActionSequence (micro_steps a)
                                  (logAction ''action_started'' s))))"
  shows "x \<in> set (log (snd (executeSelectedAction env a s)))"
proof -
  obtain r s3 where seq:
    "executeActionSequence (micro_steps a) (logAction ''action_started'' s) = (r, s3)"
    by (cases "executeActionSequence (micro_steps a) (logAction ''action_started'' s)")
  with x have x3: "x \<in> set (log s3)" by simp
  show ?thesis
  proof (cases r)
    case Completes
    with executeSelectedAction_returns [OF cond, of s3] seq obtain ext where
      "log (snd (executeSelectedAction env a s)) = log s3 @ ext" by blast
    with x3 show ?thesis by simp
  next
    case (Throws e)
    with executeSelectedAction_throws [OF cond, of e s3] seq x3 show ?thesis by simp
  qed
qed





lemma paused_first_steps:
  "micro_steps visit_action = [\<lparr>ma_type = ''click''\<rparr>] @ [\<lparr>ma_type = ''screenshot''\<rparr>]"
  by (simp add: micro_steps_def visit_action_def)

lemma failing_first_steps:
  "micro_steps visit_action = [] @ \<lparr>ma_type = ''click''\<rparr> # [\<lparr>ma_type = ''screenshot''\<rparr>]"
  by (simp add: micro_steps_def visit_action_def)

lemma failing_rest_completes:
  "fst (executeActionSequence [\<lparr>ma_type = ''screenshot''\<rparr>]
         (logError ''micro_action_failed'' (Some ''Element not found: #buy'')
            (snd (executeMicroAction \<lparr>ma_type = ''click''\<rparr>
                    (logAction ''action_started'' failing_step))))) = Completes
   \<and> isRunning (logAction ''action_started'' failing_step)
   \<and> \<not> isPaused (logAction ''action_started'' failing_step)"
  by code_simp



text \<open>
  C1 (as amended). The impact of an action is applied to the progress tracker exactly
  when the conditions of the action hold and its micro-sequence returns without
  throwing. The sequence throws exactly when a micro-action that it reaches, at
  whichever position, fails with a fatal error: the steps after it are skipped, the
  error leaves \<open>executeSelectedAction\<close> and no impact is applied. A failure that is not
  fatal is logged as \<open>micro_action_failed\<close> and the loop goes on with the next step, and
  a sequence that the pause/stop check cuts short returns normally: in both cases the
  impact is applied, unless a later step fails fatally.
\<close>

theorem impact_applied_unless_fatal_error:
  "tracker_updates (snd (executeSelectedAction env a s))
     = tracker_updates s
       @ (if conditions_hold (cond_env_of env s) a
             \<and> fst (executeActionSequence (micro_steps a) (logAction ''action_started'' s))
                 = Completes
          then (case impact a of None \<Rightarrow> [] | Some deltas \<Rightarrow> [deltas]) else [])
   \<and> (fst (executeActionSequence ms s) \<noteq> Completes \<longrightarrow>
        (\<exists>e. fst (executeActionSequence ms s) = Throws e \<and> shouldAbortOnError e))
   \<and> (\<not> isRunning s \<or> isPaused s \<longrightarrow> executeActionSequence ms s = (Completes, s))
   \<and> (executeActionSequence ms s = (Throws e, s2) \<longleftrightarrow>
        (\<exists>pre m rest s1. ms = pre @ m # rest
           \<and> executeActionSequence pre s = (Completes, s1) \<and> isRunning s1 \<and> \<not> isPaused s1
           \<and> executeMicroAction m s1 = (Throws e, s2) \<and> shouldAbortOnError e))
   \<and> (executeActionSequence pre s = (Completes, s1) \<and> isRunning s1 \<and> \<not> isPaused s1
        \<and> executeMicroAction m s1 = (Throws e, s2) \<and> \<not> shouldAbortOnError e \<longrightarrow>
        executeActionSequence (pre @ m # rest) s
          = executeActionSequence rest (logError ''micro_action_failed'' e s2)
        \<and> LogError ''micro_action_failed'' e
            \<in> set (log (snd (executeActionSequence (pre @ m # rest) s))))
   \<and> (executeActionSequence pre s = (Completes, s1) \<and> (\<not> isRunning s1 \<or> isPaused s1) \<longrightarrow>
        executeActionSequence (pre @ rest) s = (Completes, s1))
   \<and> (conditions_hold (cond_env_of env s) a \<and> micro_steps a = pre @ m # rest
        \<and> executeActionSequence pre (logAction ''action_started'' s) = (Completes, s1)
        \<and> isRunning s1 \<and> \<not> isPaused s1
        \<and> executeMicroAction m s1 = (Throws e, s2) \<and> shouldAbortOnError e \<longrightarrow>
        executeSelectedAction env a s = (Throws e, logError ''action_execution_failed'' e s2)
        \<and> tracker_updates (snd (executeSelectedAction env a s)) = tracker_updates s)
   \<and> (conditions_hold (cond_env_of env s) a \<and> micro_steps a = pre @ m # rest
        \<and> executeActionSequence pre (logAction ''action_started'' s) = (Completes, s1)
        \<and> isRunning s1 \<and> \<not> isPaused s1
        \<and> executeMicroAction m s1 = (Throws e, s2) \<and> \<not> shouldAbortOnError e \<longrightarrow>
        LogError ''micro_action_failed'' e \<in> set (log (snd (executeSelectedAction env a s)))
        \<and> (fst (executeActionSequence rest (logError ''micro_action_failed'' e s2)) = Completes \<longrightarrow>
             fst (executeSelectedAction env a s) = Completes
             \<and> tracker_updates (snd (executeSelectedAction env a s))
                 = tracker_updates s
                   @ (case impact a of None \<Rightarrow> [] | Some deltas \<Rightarrow> [deltas])))
   \<and> (conditions_hold (cond_env_of env s) a \<and> micro_steps a = pre @ rest
        \<and> executeActionSequence pre (logAction ''action_started'' s) = (Completes, s1)
        \<and> (\<not> isRunning s1 \<or> isPaused s1) \<longrightarrow>
        fst (executeSelectedAction env a s) = Completes
        \<and> tracker_updates (snd (executeSelectedAction env a s))
            = tracker_updates s @ (case impact a of None \<Rightarrow> [] | Some deltas \<Rightarrow> [deltas]))"
proof (intro conjI impI)
  let ?s1 = "logAction ''action_started'' s"
  obtain r s3 where seq: "executeActionSequence (micro_steps a) ?s1 = (r, s3)"
    by (cases "executeActionSequence (micro_steps a) ?s1")
  from executeActionSequence_tracker [of "micro_steps a" ?s1] seq
  have t2: "tracker_updates s3 = tracker_updates s" by simp
  show "tracker_updates (snd (executeSelectedAction env a s))
     = tracker_updates s
       @ (if conditions_hold (cond_env_of env s) a
             \<and> fst (executeActionSequence (micro_steps a) (logAction ''action_started'' s))
                 = Completes
          then (case impact a of None \<Rightarrow> [] | Some deltas \<Rightarrow> [deltas]) else [])"
    unfolding executeSelectedAction_def Let_def executeActionSequence_Nil_steps
    using seq t2
    by (cases r) (auto simp: handlePageTransition_def split: option.splits)
next
  assume "fst (executeActionSequence ms s) \<noteq> Completes"
  then show "\<exists>e. fst (executeActionSequence ms s) = Throws e \<and> shouldAbortOnError e"
    using executeActionSequence_throws_fatal [of ms s]
    by (cases "fst (executeActionSequence ms s)") auto
next
  assume "\<not> isRunning s \<or> isPaused s"
  then show "executeActionSequence ms s = (Completes, s)"
    by (rule executeActionSequence_stopped)
next
  show "executeActionSequence ms s = (Throws e, s2) \<longleftrightarrow>
        (\<exists>pre m rest s1. ms = pre @ m # rest
           \<and> executeActionSequence pre s = (Completes, s1) \<and> isRunning s1 \<and> \<not> isPaused s1
           \<and> executeMicroAction m s1 = (Throws e, s2) \<and> shouldAbortOnError e)"
    using sequence_throws_at_step [of ms s e s2] sequence_step_fatal [of _ s _ _ e s2]
    by blast
next
  assume h: "executeActionSequence pre s = (Completes, s1) \<and> isRunning s1 \<and> \<not> isPaused s1
        \<and> executeMicroAction m s1 = (Throws e, s2) \<and> \<not> shouldAbortOnError e"
  then show "executeActionSequence (pre @ m # rest) s
          = executeActionSequence rest (logError ''micro_action_failed'' e s2)"
    by (simp add: sequence_step_logged)
  from h show "LogError ''micro_action_failed'' e
            \<in> set (log (snd (executeActionSequence (pre @ m # rest) s)))"
    by (simp add: sequence_step_in_log)
next
  assume "executeActionSequence pre s = (Completes, s1) \<and> (\<not> isRunning s1 \<or> isPaused s1)"
  then show "executeActionSequence (pre @ rest) s = (Completes, s1)"
    by (simp add: sequence_cut_short)
next
  assume h: "conditions_hold (cond_env_of env s) a \<and> micro_steps a = pre @ m # rest
        \<and> executeActionSequence pre (logAction ''action_started'' s) = (Completes, s1)
        \<and> isRunning s1 \<and> \<not> isPaused s1
        \<and> executeMicroAction m s1 = (Throws e, s2) \<and> shouldAbortOnError e"
  then have seq: "executeActionSequence (micro_steps a) (logAction ''action_started'' s)
                    = (Throws e, s2)"
    by (simp add: sequence_step_fatal)
  from h have cond: "conditions_hold (cond_env_of env s) a" by simp
  from executeSelectedAction_throws [OF cond seq]
  show act: "executeSelectedAction env a s
               = (Throws e, logError ''action_execution_failed'' e s2)" .
  from executeActionSequence_tracker [of "micro_steps a" "logAction ''action_started'' s"] seq
  have "tracker_updates s2 = tracker_updates s" by simp
  with act show "tracker_updates (snd (executeSelectedAction env a s)) = tracker_updates s"
    by simp
next
  assume h: "conditions_hold (cond_env_of env s) a \<and> micro_steps a = pre @ m # rest
        \<and> executeActionSequence pre (logAction ''action_started'' s) = (Completes, s1)
        \<and> isRunning s1 \<and> \<not> isPaused s1
        \<and> executeMicroAction m s1 = (Throws e, s2) \<and> \<not> shouldAbortOnError e"
  then have cond: "conditions_hold (cond_env_of env s) a" by simp
  from h have "LogError ''micro_action_failed'' e
      \<in> set (log (snd (executeActionSequence (micro_steps a) (logAction ''action_started'' s))))"
    by (simp add: sequence_step_in_log)
  with cond show "LogError ''micro_action_failed'' e
      \<in> set (log (snd (executeSelectedAction env a s)))"
    by (rule executeSelectedAction_keeps_log)
  assume c: "fst (executeActionSequence rest (logError ''micro_action_failed'' e s2)) = Completes"
  from h have "executeActionSequence (micro_steps a) (logAction ''action_started'' s)
                 = executeActionSequence rest (logError ''micro_action_failed'' e s2)"
    by (simp add: sequence_step_logged)
  with c have seq: "executeActionSequence (micro_steps a) (logAction ''action_started'' s)
      = (Completes, snd (executeActionSequence rest (logError ''micro_action_failed'' e s2)))"
    by (simp add: prod_eq_iff)
  from executeSelectedAction_returns [OF cond seq]
  show "fst (executeSelectedAction env a s) = Completes"
    and "tracker_updates (snd (executeSelectedAction env a s))
            = tracker_updates s @ (case impact a of None \<Rightarrow> [] | Some deltas \<Rightarrow> [deltas])"
    by simp_all
next
  assume h: "conditions_hold (cond_env_of env s) a \<and> micro_steps a = pre @ rest
        \<and> executeActionSequence pre (logAction ''action_started'' s) = (Completes, s1)
        \<and> (\<not> isRunning s1 \<or> isPaused s1)"
  then have cond: "conditions_hold (cond_env_of env s) a" by simp
  from h have seq: "executeActionSequence (micro_steps a) (logAction ''action_started'' s)
                      = (Completes, s1)"
    by (simp add: sequence_cut_short)
  from executeSelectedAction_returns [OF cond seq]
  show "fst (executeSelectedAction env a s) = Completes"
    and "tracker_updates (snd (executeSelectedAction env a s))
            = tracker_updates s @ (case impact a of None \<Rightarrow> [] | Some deltas \<Rightarrow> [deltas])"
    by simp_all
qed

theorem impact_applied_unless_fatal_error_witness:
  "shouldAbortOnError (Some ''Extension_Error: context invalidated'')
   \<and> fst (executeSelectedAction calm_tick visit_action fatal_second_step)
       = Throws (Some ''Extension_Error: context invalidated'')
   \<and> tracker_updates (snd (executeSelectedAction calm_tick visit_action fatal_second_step)) = []
   \<and> isPaused (snd (executeActionSequence [\<lparr>ma_type = ''click''\<rparr>]
                       (logAction ''action_started'' paused_midway)))
   \<and> tracker_updates (snd (executeSelectedAction calm_tick visit_action paused_midway))
       = [[(''visits'', 1)]]
   \<and> LogError ''micro_action_failed'' (Some ''Element not found: #buy'')
       \<in> set (log (snd (executeSelectedAction calm_tick visit_action failing_step)))
   \<and> tracker_updates (snd (executeSelectedAction calm_tick visit_action failing_step))
       = [[(''visits'', 1)]]"
proof -
  let ?click = "\<lparr>ma_type = ''click''\<rparr>"
  let ?shot = "\<lparr>ma_type = ''screenshot''\<rparr>"
  let ?e = "Some ''Extension_Error: context invalidated''"
  let ?f = "Some ''Element not found: #buy''"
  let ?s1 = "snd (executeActionSequence [?click] (logAction ''action_started'' fatal_second_step))"
  let ?s2 = "snd (executeMicroAction ?shot ?s1)"
  let ?p1 = "snd (executeActionSequence [?click] (logAction ''action_started'' paused_midway))"
  let ?f2 = "snd (executeMicroAction ?click (logAction ''action_started'' failing_step))"
  have t0: "tracker_updates fatal_second_step = []" "tracker_updates paused_midway = []"
    "tracker_updates failing_step = []" "impact visit_action = Some [(''visits'', 1)]"
    by (simp_all add: fatal_second_step_def paused_midway_def failing_step_def
        running_session_def visit_action_def)
  have pre: "executeActionSequence [?click] (logAction ''action_started'' fatal_second_step)
               = (Completes, ?s1)"
    using second_step_reached by (simp add: prod_eq_iff)
  have thrown: "executeMicroAction ?shot ?s1 = (Throws ?e, ?s2)"
    using second_step_throws by (simp add: prod_eq_iff)
  note thm1 = impact_applied_unless_fatal_error
      [where env = calm_tick and a = visit_action and s = fatal_second_step
         and pre = "[?click]" and m = ?shot and rest = "[]" and ?s1.0 = ?s1 and e = ?e
         and ?s2.0 = ?s2]
  from thm1 visit_conditions visit_steps pre thrown second_step_reached extension_error_fatal
  have a: "executeSelectedAction calm_tick visit_action fatal_second_step
             = (Throws ?e, logError ''action_execution_failed'' ?e ?s2)
           \<and> tracker_updates (snd (executeSelectedAction calm_tick visit_action fatal_second_step))
               = tracker_updates fatal_second_step"
    by blast
  have ppre: "executeActionSequence [?click] (logAction ''action_started'' paused_midway)
                = (Completes, ?p1)"
    using first_step_paused by (simp add: prod_eq_iff)
  note thm2 = impact_applied_unless_fatal_error
      [where env = calm_tick and a = visit_action and s = paused_midway
         and pre = "[?click]" and rest = "[?shot]" and ?s1.0 = ?p1]
  from thm2 visit_conditions paused_first_steps ppre first_step_paused
  have b: "tracker_updates (snd (executeSelectedAction calm_tick visit_action paused_midway))
             = tracker_updates paused_midway
               @ (case impact visit_action of None \<Rightarrow> [] | Some deltas \<Rightarrow> [deltas])"
    by blast
  have fpre: "executeActionSequence [] (logAction ''action_started'' failing_step)
                = (Completes, logAction ''action_started'' failing_step)" by simp
  have fthrown: "executeMicroAction ?click (logAction ''action_started'' failing_step)
                   = (Throws ?f, ?f2)"
    using first_step_fails by (simp add: prod_eq_iff)
  note thm3 = impact_applied_unless_fatal_error
      [where env = calm_tick and a = visit_action and s = failing_step
         and pre = "[]" and m = ?click and rest = "[?shot]"
         and ?s1.0 = "logAction ''action_started'' failing_step" and e = ?f and ?s2.0 = ?f2]
  from thm3 visit_conditions failing_first_steps fpre fthrown first_step_fails
    failing_rest_completes
  have c: "LogError ''micro_action_failed'' ?f
             \<in> set (log (snd (executeSelectedAction calm_tick visit_action failing_step)))
           \<and> tracker_updates (snd (executeSelectedAction calm_tick visit_action failing_step))
               = tracker_updates failing_step
                 @ (case impact visit_action of None \<Rightarrow> [] | Some deltas \<Rightarrow> [deltas])"
    by blast
  from a [THEN conjunct1]
  have a1: "fst (executeSelectedAction calm_tick visit_action fatal_second_step) = Throws ?e"
    by (simp only: fst_conv)
  from a [THEN conjunct2] t0
  have a2: "tracker_updates (snd (executeSelectedAction calm_tick visit_action fatal_second_step))
              = []"
    by (simp only:)
  from b t0
  have b1: "tracker_updates (snd (executeSelectedAction calm_tick visit_action paused_midway))
              = [[(''visits'', 1)]]"
    by (simp del: executeActionSequence.simps)
  from c [THEN conjunct2] t0
  have c2: "tracker_updates (snd (executeSelectedAction calm_tick visit_action failing_step))
              = [[(''visits'', 1)]]"
    by (simp del: executeActionSequence.simps)
  from extension_error_fatal a1 a2 first_step_paused [THEN conjunct2] b1 c [THEN conjunct1] c2
  show ?thesis by (intro conjI)
qed

text \<open>
  C1 as stated fails. A pause arrives while the first micro-action is awaiting: the
  second one is never executed, and the visit is counted all the same. And a
  micro-action that fails with \<open>Element not found\<close> is logged, and the visit is counted.
\<close>

theorem impact_applied_after_incomplete_sequence:
  "tracker_updates paused_midway = []
   \<and> tracker_updates (snd (executeSelectedAction calm_tick visit_action paused_midway))
       = [[(''visits'', 1)]]
   \<and> isPaused (snd (executeSelectedAction calm_tick visit_action paused_midway))
   \<and> microRuns (snd (executeSelectedAction calm_tick visit_action paused_midway))
       = [([], Completes)]
   \<and> \<not> sequence_completes_successfully (micro_steps visit_action)
          (logAction ''action_started'' paused_midway)
   \<and> tracker_updates failing_step = []
   \<and> tracker_updates (snd (executeSelectedAction calm_tick visit_action failing_step))
       = [[(''visits'', 1)]]
   \<and> \<not> sequence_completes_successfully (micro_steps visit_action)
          (logAction ''action_started'' failing_step)"
proof -
  have "tracker_updates paused_midway = [] \<and> tracker_updates failing_step = []"
    by (simp add: paused_midway_def failing_step_def running_session_def)
  with paused_midway_run paused_midway_incomplete failing_step_run failing_step_incomplete
  show ?thesis by simp
qed







subsection \<open>Element finder\<close>

lemma split_str_no_sep: "sep \<notin> set s \<Longrightarrow> split_str sep s = [s]"
  by (induction s) (auto simp: Let_def)

lemma split_str_at_sep:
  "sep \<notin> set a \<Longrightarrow> split_str sep (a @ sep # b) = a # split_str sep b"
  by (induction a) (auto simp: Let_def)

lemma includes_str_char: "includes_str s [c] \<longleftrightarrow> c \<in> set s"
  by (induction s) auto

lemma first_found_direct:
  "first_found (Inr (Some e) # rest) = Some e"
  by simp

lemma first_found_skip:
  "yields_nothing r \<Longrightarrow> first_found (r # rest) = first_found rest"
  by (cases r) (auto simp: yields_nothing_def split: option.splits)

text \<open>
  C6. The resolution pipeline tries the direct match, the comma-separated fallback
  list, the text-content match, the attribute match and the geometric match in this
  order, and the first strategy that yields an element wins. So a selector that the
  direct structural query matches resolves to the element of that query, whatever
  the text-content strategy would find.
\<close>

theorem direct_match_wins:
  "(findByDirectSelector fs doc r sel = Inr (Some e) \<longrightarrow>
      findElementBySelector fs doc r sel = Some e)
   \<and> (yields_nothing (findByDirectSelector fs doc r sel)
        \<and> findByFallbackSelectors doc sel = Inr (Some e) \<longrightarrow>
      findElementBySelector fs doc r sel = Some e)
   \<and> (yields_nothing (findByDirectSelector fs doc r sel)
        \<and> yields_nothing (findByFallbackSelectors doc sel)
        \<and> findByTextContent doc sel = Inr (Some e) \<longrightarrow>
      findElementBySelector fs doc r sel = Some e)
   \<and> (yields_nothing (findByDirectSelector fs doc r sel)
        \<and> yields_nothing (findByFallbackSelectors doc sel)
        \<and> yields_nothing (findByTextContent doc sel)
        \<and> findByAttributes doc sel = Inr (Some e) \<longrightarrow>
      findElementBySelector fs doc r sel = Some e)
   \<and> (yields_nothing (findByDirectSelector fs doc r sel)
        \<and> yields_nothing (findByFallbackSelectors doc sel)
        \<and> yields_nothing (findByTextContent doc sel)
        \<and> yields_nothing (findByAttributes doc sel) \<longrightarrow>
      findElementBySelector fs doc r sel
        = (case findByPosition doc sel of Inr (Some el) \<Rightarrow> Some el | _ \<Rightarrow> None))"
  by (auto simp: findElementBySelector_def first_found_skip split: sum.splits option.splits)

lemma shop_direct_result: "findByDirectSelector fresh_finder shop_document 0 buy_now_selector = Inr (Some (Dom svg_text))"
  by code_simp
lemma shop_text_result: "findByTextContent shop_document buy_now_selector = Inr (Some (Dom buy_button))"
  by code_simp
lemma shop_elements_differ: "svg_text \<noteq> buy_button" by code_simp

theorem direct_match_wins_witness:
  "findByDirectSelector fresh_finder shop_document 0 buy_now_selector
     = Inr (Some (Dom svg_text))
   \<and> findByTextContent shop_document buy_now_selector = Inr (Some (Dom buy_button))
   \<and> svg_text \<noteq> buy_button
   \<and> findElementBySelector fresh_finder shop_document 0 buy_now_selector = Some (Dom svg_text)"
proof -
  from direct_match_wins [of fresh_finder shop_document 0 buy_now_selector "Dom svg_text"] shop_direct_result
  have "findElementBySelector fresh_finder shop_document 0 buy_now_selector = Some (Dom svg_text)"
    by blast
  with shop_direct_result shop_text_result shop_elements_differ show ?thesis by simp
qed

lemma handleSpecialSelectors_unknown_modifier:
  assumes "CHR '':'' \<notin> set base" and "CHR '':'' \<notin> set modifier"
    and "modifier \<notin> {''random'', ''visible'', ''inviewport'', ''first'', ''last''}"
    and "startsWith modifier ''nth('' \<longrightarrow> find_match nth_at modifier = None"
    and "querySelectorAll doc base = Inr (e # es)"
  shows "handleSpecialSelectors doc r (base @ '':'' @ modifier) = Inr (Some e)"
proof -
  let ?sel = "base @ '':'' @ modifier"
  have parts: "split_str CHR '':'' ?sel = [base, modifier]"
    using assms(1,2) by (simp add: split_str_at_sep split_str_no_sep)
  show "handleSpecialSelectors doc r ?sel = Inr (Some e)"
    unfolding handleSpecialSelectors_def parts Let_def
    using assms(3,4,5)
    by (auto simp: at_index_def split: option.splits)
qed

lemma colon_selector_not_alias:
  assumes "CHR '':'' \<notin> set base" and "base \<noteq> []"
  shows "base @ '':'' @ modifier \<notin>
           {'':random'', '':visible'', '':inviewport'', '':nth'', '':first'', '':last'',
            ''current'', ''browser_back''}"
proof -
  let ?sel = "base @ '':'' @ modifier"
  obtain c cs where base: "base = c # cs" using assms(2) by (cases base) auto
  with assms(1) have c: "c \<noteq> CHR '':''" by auto
  have hd: "hd ?sel = c" by (simp add: base)
  have m: "CHR '':'' \<in> set ?sel" by simp
  have n: "CHR '':'' \<notin> set ''current''" "CHR '':'' \<notin> set ''browser_back''" by simp_all
  have a: "?sel \<noteq> ''current''" "?sel \<noteq> ''browser_back''"
    using m n by metis+
  have b: "hd '':random'' = CHR '':''" "hd '':visible'' = CHR '':''"
    "hd '':inviewport'' = CHR '':''" "hd '':nth'' = CHR '':''" "hd '':first'' = CHR '':''"
    "hd '':last'' = CHR '':''" by simp_all
  have "?sel \<noteq> '':random''" "?sel \<noteq> '':visible''" "?sel \<noteq> '':inviewport''"
    "?sel \<noteq> '':nth''" "?sel \<noteq> '':first''" "?sel \<noteq> '':last''"
    using hd c b by metis+
  with a show ?thesis by blast
qed

lemma direct_special:
  assumes "sel \<notin> {'':random'', '':visible'', '':inviewport'', '':nth'', '':first'', '':last'',
            ''current'', ''browser_back''}"
    and "includes_str sel '':''"
  shows "findByDirectSelector fs doc r sel
           = (case handleSpecialSelectors doc r sel of
                Inl e \<Rightarrow> Inl e | Inr x \<Rightarrow> Inr (map_option Dom x))"
  using assms by (simp add: findByDirectSelector_def)

lemma startsWith_append_nonempty:
  "base \<noteq> [] \<Longrightarrow> startsWith (base @ rest) [c] = startsWith base [c]"
  by (cases base) simp_all

lemma findElement_uncached:
  assumes "\<not> startsWith sel ''@''" and "findElementBySelector fs doc r sel = Some el"
  shows "findElement doc r False sel gs fs = (Inr el, fs\<lparr>lastFound := Some el\<rparr>)"
  using assms by (simp add: findElement_def processSelector_def resolve_fresh_def)

text \<open>
  C9. For a selector \<open>base:modifier\<close> whose modifier is none of \<open>random\<close>, \<open>visible\<close>,
  \<open>inviewport\<close>, \<open>first\<close>, \<open>last\<close> or \<open>nth(n)\<close> (a modifier that starts with \<open>nth(\<close> and in
  which \<open>nth(digits)\<close> occurs), and whose base selector matches at least one element,
  the resolution returns the first element that matches the base selector: the
  modifier is passed over without an error.
\<close>

theorem unknown_modifier_returns_first_match:
  assumes "CHR '':'' \<notin> set base" and "CHR '':'' \<notin> set modifier"
    and "modifier \<notin> {''random'', ''visible'', ''inviewport'', ''first'', ''last''}"
    and "startsWith modifier ''nth('' \<longrightarrow> find_match nth_at modifier = None"
    and "querySelectorAll doc base = Inr (e # es)"
  shows "handleSpecialSelectors doc r (base @ '':'' @ modifier) = Inr (Some e)
         \<and> findByDirectSelector fs doc r (base @ '':'' @ modifier) = Inr (Some (Dom e))
         \<and> findElementBySelector fs doc r (base @ '':'' @ modifier) = Some (Dom e)
         \<and> (\<not> startsWith base ''@'' \<longrightarrow>
              findElement doc r False (base @ '':'' @ modifier) gs fs
                = (Inr (Dom e), fs\<lparr>lastFound := Some (Dom e)\<rparr>))"
proof -
  have special: "handleSpecialSelectors doc r (base @ '':'' @ modifier) = Inr (Some e)"
    using assms by (rule handleSpecialSelectors_unknown_modifier)
  have ne: "base \<noteq> []" using assms(5) by (auto simp: querySelectorAll_def)
  with assms(1) have na: "base @ '':'' @ modifier \<notin>
           {'':random'', '':visible'', '':inviewport'', '':nth'', '':first'', '':last'',
            ''current'', ''browser_back''}"
    by (rule colon_selector_not_alias)
  have colon: "includes_str (base @ '':'' @ modifier) '':''"
    by (simp add: includes_str_char)
  have direct: "findByDirectSelector fs doc r (base @ '':'' @ modifier) = Inr (Some (Dom e))"
    by (simp only: direct_special [OF na colon] special) simp
  then have pipeline: "findElementBySelector fs doc r (base @ '':'' @ modifier) = Some (Dom e)"
    by (simp only: findElementBySelector_def first_found.simps)
  have "\<not> startsWith base ''@'' \<longrightarrow>
              findElement doc r False (base @ '':'' @ modifier) gs fs
                = (Inr (Dom e), fs\<lparr>lastFound := Some (Dom e)\<rparr>)"
  proof
    assume "\<not> startsWith base ''@''"
    with startsWith_append_nonempty [OF ne, of "'':'' @ modifier" "CHR ''@''"]
    have "\<not> startsWith (base @ '':'' @ modifier) ''@''" by blast
    then show "findElement doc r False (base @ '':'' @ modifier) gs fs
                = (Inr (Dom e), fs\<lparr>lastFound := Some (Dom e)\<rparr>)"
      using pipeline by (rule findElement_uncached)
  qed
  with special direct pipeline show ?thesis by blast
qed

lemma shop_button_query: "querySelectorAll shop_document ''button'' = Inr [buy_button]"
  by (simp add: querySelectorAll_def shop_document_def)

theorem unknown_modifier_returns_first_match_witness:
  "querySelectorAll shop_document ''button'' = Inr [buy_button]
   \<and> findElementBySelector fresh_finder shop_document 0 ''button:hover'' = Some (Dom buy_button)"
proof -
  have a: "CHR '':'' \<notin> set ''button''" "CHR '':'' \<notin> set ''hover''" by simp_all
  have b: "''hover'' \<notin> {''random'', ''visible'', ''inviewport'', ''first'', ''last''}" by simp
  have c: "startsWith ''hover'' ''nth('' \<longrightarrow> find_match nth_at ''hover'' = None" by simp
  from unknown_modifier_returns_first_match [OF a b c shop_button_query, of 0 fresh_finder]
  have "findElementBySelector fresh_finder shop_document 0 (''button'' @ '':'' @ ''hover'')
          = Some (Dom buy_button)" by blast
  then have "findElementBySelector fresh_finder shop_document 0 ''button:hover'' = Some (Dom buy_button)"
    by simp
  with shop_button_query show ?thesis by simp
qed

subsection \<open>ActionExecutor\<close>

text \<open>
  C3. For a range string \<open>a-bs\<close> the sampled duration should lie between \<open>a*1000\<close> and
  \<open>b*1000\<close> milliseconds. The string \<open>2-3s\<close> is cut into \<open>2\<close> and \<open>3s\<close>; the lower bound
  has no unit and is read as 2 milliseconds, the upper bound as 3000. With the random
  value 0 the sampled duration is 2 milliseconds, below the 2000 of the claim.
\<close>

theorem parseDuration_range_below_lower_bound:
  "parseTimeValue ''2'' = Some 2 \<and> parseTimeValue ''3s'' = Some 3000
   \<and> parseDuration 0 ''2-3s'' = Some 2 \<and> \<not> (2 * 1000 \<le> (2 :: num))"
  by code_simp

end
